theory Spec2Isabelle
  imports Main "HOL-Library.Word" "HOL-Library.AList"
begin

section \<open>Path strings (node:path, POSIX flavour)\<close>

text \<open>
  The source imports \<^verbatim>\<open>node:path\<close> and calls \<^verbatim>\<open>path.resolve\<close>, \<^verbatim>\<open>path.join\<close>,
  \<^verbatim>\<open>path.dirname\<close> and \<^verbatim>\<open>path.basename\<close>. They are host library functions, not code of
  the repository; they are written out here after their POSIX implementation, on strings,
  so that the handles of the repository compute real path strings.
\<close>

text \<open>\<^verbatim>\<open>String.prototype.split("/")\<close>: the pieces between the separators.\<close>

fun split_sep :: "string \<Rightarrow> string list" where
  "split_sep [] = [[]]"
| "split_sep (c # cs) =
     (if c = CHR ''/'' then [] # split_sep cs
      else (case split_sep cs of [] \<Rightarrow> [[c]] | s # ss \<Rightarrow> (c # s) # ss))"

text \<open>\<^verbatim>\<open>Array.prototype.join("/")\<close>.\<close>

fun join_sep :: "string list \<Rightarrow> string" where
  "join_sep [] = []"
| "join_sep [s] = s"
| "join_sep (s # t # ss) = s @ CHR ''/'' # join_sep (t # ss)"

text \<open>
  \<^verbatim>\<open>normalizeString(path, allowAboveRoot)\<close> works through the segments of the path from
  left to right: an empty segment and \<^verbatim>\<open>.\<close> are dropped, \<^verbatim>\<open>..\<close> removes the last segment
  kept so far (unless there is none, or it is itself \<^verbatim>\<open>..\<close>: then \<^verbatim>\<open>..\<close> is kept when
  \<open>allowAboveRoot\<close> holds and dropped otherwise), any other segment is kept.
\<close>

fun normalize_segs :: "bool \<Rightarrow> string list \<Rightarrow> string list \<Rightarrow> string list" where
  "normalize_segs aa acc [] = acc"
| "normalize_segs aa acc (s # ss) =
     (if s = [] \<or> s = ''.'' then normalize_segs aa acc ss
      else if s = ''..'' then
        (if acc \<noteq> [] \<and> last acc \<noteq> ''..'' then normalize_segs aa (butlast acc) ss
         else if aa then normalize_segs aa (acc @ [''..'']) ss
         else normalize_segs aa acc ss)
      else normalize_segs aa (acc @ [s]) ss)"

definition normalizeString :: "string \<Rightarrow> bool \<Rightarrow> string" where
  "normalizeString p allowAboveRoot = join_sep (normalize_segs allowAboveRoot [] (split_sep p))"

definition isAbsolute :: "string \<Rightarrow> bool" where
  "isAbsolute p = (case p of [] \<Rightarrow> False | c # _ \<Rightarrow> c = CHR ''/'')"

text \<open>
  \<^verbatim>\<open>path.resolve(...args)\<close>: the arguments are taken from right to left, then the
  current working directory, until the path built so far is absolute; empty arguments are
  skipped.
\<close>

fun resolve_loop :: "string list \<Rightarrow> string \<Rightarrow> string \<times> bool" where
  "resolve_loop [] resolvedPath = (resolvedPath, False)"
| "resolve_loop (p # ps) resolvedPath =
     (if p = [] then resolve_loop ps resolvedPath
      else if isAbsolute p then (p @ CHR ''/'' # resolvedPath, True)
      else resolve_loop ps (p @ CHR ''/'' # resolvedPath))"

definition path_resolve :: "string \<Rightarrow> string list \<Rightarrow> string" where
  "path_resolve cwd args =
     (case resolve_loop (rev args @ [cwd]) [] of
        (resolvedPath, resolvedAbsolute) \<Rightarrow>
          (let n = normalizeString resolvedPath (\<not> resolvedAbsolute)
           in if resolvedAbsolute then CHR ''/'' # n
              else if n \<noteq> [] then n else ''.''))"

definition path_normalize :: "string \<Rightarrow> string" where
  "path_normalize p =
     (if p = [] then ''.''
      else
        (let isAbs = isAbsolute p;
             trailingSeparator = (last p = CHR ''/'');
             n = normalizeString p (\<not> isAbs)
         in if n = [] then (if isAbs then ''/'' else if trailingSeparator then ''./'' else ''.'')
            else (let n' = (if trailingSeparator then n @ ''/'' else n)
                  in if isAbs then CHR ''/'' # n' else n')))"

definition path_join :: "string list \<Rightarrow> string" where
  "path_join args =
     (let parts = filter (\<lambda>a. a \<noteq> []) args
      in if parts = [] then ''.'' else path_normalize (join_sep parts))"

text \<open>
  \<^verbatim>\<open>path.dirname\<close> scans from the end down to index 1: trailing separators are skipped,
  then the last segment, and the path is cut at the separator before it.
\<close>

definition path_dirname :: "string \<Rightarrow> string" where
  "path_dirname p =
     (case p of
        [] \<Rightarrow> ''.''
      | c # cs \<Rightarrow>
          (case dropWhile (\<lambda>x. x \<noteq> CHR ''/'') (dropWhile (\<lambda>x. x = CHR ''/'') (rev cs)) of
             [] \<Rightarrow> (if c = CHR ''/'' then ''/'' else ''.'')
           | _ # r \<Rightarrow> (if c = CHR ''/'' \<and> r = [] then ''//'' else c # rev r)))"

text \<open>\<^verbatim>\<open>path.basename\<close> (no suffix): the last segment, trailing separators ignored.\<close>

definition path_basename :: "string \<Rightarrow> string" where
  "path_basename p =
     rev (takeWhile (\<lambda>x. x \<noteq> CHR ''/'') (dropWhile (\<lambda>x. x = CHR ''/'') (rev p)))"


text \<open>
  A name that a directory entry can carry: not empty, no separator, neither \<^verbatim>\<open>.\<close> nor
  \<^verbatim>\<open>..\<close>. \<open>abs_path\<close> writes a list of such names as an absolute path string.
\<close>

definition valid_name :: "string \<Rightarrow> bool" where
  "valid_name s = (s \<noteq> [] \<and> CHR ''/'' \<notin> set s \<and> s \<noteq> ''.'' \<and> s \<noteq> ''..'')"

definition abs_path :: "string list \<Rightarrow> string" where
  "abs_path segs = CHR ''/'' # join_sep segs"

section \<open>The host file system (node:fs)\<close>

text \<open>
  The host is outside the repository. It is modelled as a tree of regular files,
  directories and special files (named pipes and sockets), a current working directory, a
  clock and the MIME table of \<^verbatim>\<open>mrmime\<close>. There are no symbolic links and no permissions; a path is resolved
  against the working directory and \<^verbatim>\<open>.\<close>, \<^verbatim>\<open>..\<close> and repeated or trailing separators are
  resolved lexically. A new entry is listed after the existing ones.
\<close>

type_synonym byte = "8 word"

datatype errno = ENOENT | ENOTDIR | EISDIR | EEXIST

text \<open>
  What the source throws and catches: an error of the host carrying a \<^verbatim>\<open>code\<close>, or a
  plain \<^verbatim>\<open>new Error(message)\<close>.
\<close>

datatype error = ErrnoException errno | Error string

datatype file_kind = Regular | Folder | SymbolicLink | Socket | FIFO

datatype special = NamedPipe | UnixSocket

datatype node =
    FileNode "byte list" int
  | DirNode "(string \<times> node) list" int
  | SpecialNode special int

record host =
  root :: node
  cwd :: string
  now :: int
  mrmime_lookup :: "string \<Rightarrow> string option"

text \<open>\<^verbatim>\<open>fs.Stats\<close>: the fields and the kind queries the source reads.\<close>

record Stats =
  st_size :: nat
  st_mtimeMs :: int
  st_kind :: file_kind

definition Stats_isFile :: "Stats \<Rightarrow> bool" where
  "Stats_isFile st = (st_kind st = Regular)"

definition Stats_isDirectory :: "Stats \<Rightarrow> bool" where
  "Stats_isDirectory st = (st_kind st = Folder)"

definition Stats_isSymbolicLink :: "Stats \<Rightarrow> bool" where
  "Stats_isSymbolicLink st = (st_kind st = SymbolicLink)"

definition Stats_isSocket :: "Stats \<Rightarrow> bool" where
  "Stats_isSocket st = (st_kind st = Socket)"

definition Stats_isFIFO :: "Stats \<Rightarrow> bool" where
  "Stats_isFIFO st = (st_kind st = FIFO)"

text \<open>\<^verbatim>\<open>fs.Dirent\<close>: the name of an entry and its kind.\<close>

record Dirent =
  dirent_name :: string
  dirent_kind :: file_kind

definition Dirent_isFile :: "Dirent \<Rightarrow> bool" where
  "Dirent_isFile e = (dirent_kind e = Regular)"


fun node_kind :: "node \<Rightarrow> file_kind" where
  "node_kind (FileNode _ _) = Regular"
| "node_kind (DirNode _ _) = Folder"
| "node_kind (SpecialNode NamedPipe _) = FIFO"
| "node_kind (SpecialNode UnixSocket _) = Socket"

fun node_stats :: "node \<Rightarrow> Stats" where
  "node_stats (FileNode bs t) = \<lparr>st_size = length bs, st_mtimeMs = t, st_kind = Regular\<rparr>"
| "node_stats (DirNode cs t) = \<lparr>st_size = 0, st_mtimeMs = t, st_kind = Folder\<rparr>"
| "node_stats (SpecialNode k t) =
     \<lparr>st_size = 0, st_mtimeMs = t, st_kind = node_kind (SpecialNode k t)\<rparr>"

text \<open>The names the host walks for a path string.\<close>

definition host_segs :: "string \<Rightarrow> string \<Rightarrow> string list" where
  "host_segs wd p =
     normalize_segs False [] (split_sep (if isAbsolute p then p else wd @ CHR ''/'' # p))"

fun lookup_node :: "node \<Rightarrow> string list \<Rightarrow> error + node" where
  "lookup_node n [] = Inr n"
| "lookup_node (DirNode cs t) (s # ss) =
     (case map_of cs s of
        None \<Rightarrow> Inl (ErrnoException ENOENT)
      | Some c \<Rightarrow> lookup_node c ss)"
| "lookup_node _ (s # ss) = Inl (ErrnoException ENOTDIR)"

definition host_lookup :: "host \<Rightarrow> string \<Rightarrow> error + node" where
  "host_lookup h p =
     (if p = [] then Inl (ErrnoException ENOENT)
      else lookup_node (root h) (host_segs (cwd h) p))"

text \<open>\<^verbatim>\<open>fs.statSync(path)\<close>.\<close>

definition statSync :: "host \<Rightarrow> string \<Rightarrow> error + Stats" where
  "statSync h p = (case host_lookup h p of Inl e \<Rightarrow> Inl e | Inr n \<Rightarrow> Inr (node_stats n))"

text \<open>\<^verbatim>\<open>fs.readdirSync(path, { withFileTypes: true })\<close> and \<^verbatim>\<open>fs.readdirSync(path)\<close>.\<close>

definition readdirSync_withFileTypes :: "host \<Rightarrow> string \<Rightarrow> error + Dirent list" where
  "readdirSync_withFileTypes h p =
     (case host_lookup h p of
        Inl e \<Rightarrow> Inl e
      | Inr (DirNode cs t) \<Rightarrow>
          Inr (map (\<lambda>(n, c). \<lparr>dirent_name = n, dirent_kind = node_kind c\<rparr>) cs)
      | Inr _ \<Rightarrow> Inl (ErrnoException ENOTDIR))"

definition readdirSync :: "host \<Rightarrow> string \<Rightarrow> error + string list" where
  "readdirSync h p =
     (case readdirSync_withFileTypes h p of
        Inl e \<Rightarrow> Inl e
      | Inr es \<Rightarrow> Inr (map dirent_name es))"

text \<open>
  \<^verbatim>\<open>fs.mkdirSync(path, { recursive: true })\<close>: every missing directory on the way is
  created; an existing directory is left as it is.
\<close>

fun mkdir_node :: "int \<Rightarrow> node \<Rightarrow> string list \<Rightarrow> error + node" where
  "mkdir_node t n [] =
     (case n of DirNode cs m \<Rightarrow> Inr n | _ \<Rightarrow> Inl (ErrnoException EEXIST))"
| "mkdir_node t (DirNode cs m) (s # ss) =
     (case mkdir_node t (case map_of cs s of None \<Rightarrow> DirNode [] t | Some c \<Rightarrow> c) ss of
        Inl e \<Rightarrow> Inl e
      | Inr c' \<Rightarrow> Inr (DirNode (AList.update s c' cs) m))"
| "mkdir_node t _ (s # ss) = Inl (ErrnoException ENOTDIR)"

definition mkdirSync_recursive :: "host \<Rightarrow> string \<Rightarrow> error + host" where
  "mkdirSync_recursive h p =
     (if p = [] then Inl (ErrnoException ENOENT)
      else case mkdir_node (now h) (root h) (host_segs (cwd h) p) of
             Inl e \<Rightarrow> Inl e
           | Inr r \<Rightarrow> Inr (h\<lparr>root := r\<rparr>))"

text \<open>
  Opening a path for writing with flag \<^verbatim>\<open>w\<close> and storing the data: the file is created
  in an existing directory or its content is replaced. This is \<^verbatim>\<open>fs.writeFileSync\<close>, and
  what a write stream of \<^verbatim>\<open>fs.createWriteStream\<close> has done once it is ended.
\<close>

fun write_node :: "int \<Rightarrow> byte list \<Rightarrow> node \<Rightarrow> string list \<Rightarrow> error + node" where
  "write_node t d n [] =
     (case n of
        FileNode bs m \<Rightarrow> Inr (FileNode d t)
      | DirNode cs m \<Rightarrow> Inl (ErrnoException EISDIR)
      | SpecialNode k m \<Rightarrow> Inr n)"
| "write_node t d (DirNode cs m) (s # ss) =
     (case map_of cs s of
        None \<Rightarrow>
          (if ss = [] then Inr (DirNode (AList.update s (FileNode d t) cs) m)
           else Inl (ErrnoException ENOENT))
      | Some c \<Rightarrow>
          (case write_node t d c ss of
             Inl e \<Rightarrow> Inl e
           | Inr c' \<Rightarrow> Inr (DirNode (AList.update s c' cs) m)))"
| "write_node t d _ (s # ss) = Inl (ErrnoException ENOTDIR)"

definition writeFileSync :: "host \<Rightarrow> string \<Rightarrow> byte list \<Rightarrow> error + host" where
  "writeFileSync h p d =
     (if p = [] then Inl (ErrnoException ENOENT)
      else case write_node (now h) d (root h) (host_segs (cwd h) p) of
             Inl e \<Rightarrow> Inl e
           | Inr r \<Rightarrow> Inr (h\<lparr>root := r\<rparr>))"

text \<open>\<^verbatim>\<open>fs.unlink(path)\<close>: removes an entry that is not a directory.\<close>

fun unlink_node :: "node \<Rightarrow> string list \<Rightarrow> error + node" where
  "unlink_node n [] = Inl (ErrnoException EISDIR)"
| "unlink_node (DirNode cs m) [s] =
     (case map_of cs s of
        None \<Rightarrow> Inl (ErrnoException ENOENT)
      | Some (DirNode cs' m') \<Rightarrow> Inl (ErrnoException EISDIR)
      | Some _ \<Rightarrow> Inr (DirNode (AList.delete s cs) m))"
| "unlink_node (DirNode cs m) (s # ss) =
     (case map_of cs s of
        None \<Rightarrow> Inl (ErrnoException ENOENT)
      | Some c \<Rightarrow>
          (case unlink_node c ss of
             Inl e \<Rightarrow> Inl e
           | Inr c' \<Rightarrow> Inr (DirNode (AList.update s c' cs) m)))"
| "unlink_node _ (s # ss) = Inl (ErrnoException ENOTDIR)"

definition unlink :: "host \<Rightarrow> string \<Rightarrow> error + host" where
  "unlink h p =
     (if p = [] then Inl (ErrnoException ENOENT)
      else case unlink_node (root h) (host_segs (cwd h) p) of
             Inl e \<Rightarrow> Inl e
           | Inr r \<Rightarrow> Inr (h\<lparr>root := r\<rparr>))"

text \<open>
  \<^verbatim>\<open>fs.createReadStream(path, { start, end })\<close>, drained: the bytes from index \<open>start\<close>
  (0 when undefined) to index \<open>end\<close> inclusive (to the end of the file when \<open>end\<close> is
  \<^verbatim>\<open>Infinity\<close>, here \<open>None\<close>). The chunks are given as their concatenation; a range
  that ends before it starts has no bytes.
\<close>

definition byte_range :: "byte list \<Rightarrow> nat option \<Rightarrow> int option \<Rightarrow> byte list" where
  "byte_range bs start end_incl =
     (let s = (case start of None \<Rightarrow> 0 | Some i \<Rightarrow> i)
      in case end_incl of
           None \<Rightarrow> drop s bs
         | Some e \<Rightarrow> take (nat (e + 1 - int s)) (drop s bs))"

definition createReadStream :: "host \<Rightarrow> string \<Rightarrow> nat option \<Rightarrow> int option \<Rightarrow> error + byte list" where
  "createReadStream h p start end_incl =
     (case host_lookup h p of
        Inl e \<Rightarrow> Inl e
      | Inr (FileNode bs t) \<Rightarrow> Inr (byte_range bs start end_incl)
      | Inr (DirNode cs t) \<Rightarrow> Inl (ErrnoException EISDIR)
      | Inr (SpecialNode k t) \<Rightarrow> Inr [])"

section \<open>Lazy content (package @mjackson/lazy-file)\<close>

text \<open>
  \<^verbatim>\<open>LazyFileContent\<close> is the interface that \<^verbatim>\<open>createFile\<close> of the source implements: a
  length and a \<^verbatim>\<open>read(start, end)\<close> that reads from the host when it is called.
\<close>

record LazyFileContent =
  byteLength :: nat
  read :: "host \<Rightarrow> nat option \<Rightarrow> nat option \<Rightarrow> error + byte list"

text \<open>
  Modelled from the spec: the window of section 3 (LazyContent), a source with the byte
  range currently selected. The class that holds it, \<^verbatim>\<open>LazyFile\<close> of the package
  \<^verbatim>\<open>@mjackson/lazy-file\<close>, is extended by the source but its code is not in the repository.
\<close>

record LazyContent =
  lc_source :: LazyFileContent
  lc_offset :: nat
  lc_length :: nat

text \<open>
  Modelled from the spec: an index of \<^verbatim>\<open>slice\<close>; a negative index counts from the end of
  the current window, and the result is clamped to the window (section 4.2).
\<close>

definition clamp_index :: "int \<Rightarrow> nat \<Rightarrow> nat" where
  "clamp_index i len = (if i < 0 then nat (max (int len + i) 0) else min (nat i) len)"

text \<open>
  Modelled from the spec: \<^verbatim>\<open>slice(relStart?, relEnd?)\<close> of section 4.2; both indices
  default to the full current window, the new window shares the source, and no I/O occurs.
\<close>

definition LazyContent_slice :: "LazyContent \<Rightarrow> int option \<Rightarrow> int option \<Rightarrow> LazyContent" where
  "LazyContent_slice w relStart relEnd =
     (let len = lc_length w;
          s = (case relStart of None \<Rightarrow> 0 | Some i \<Rightarrow> clamp_index i len);
          e = (case relEnd of None \<Rightarrow> len | Some i \<Rightarrow> clamp_index i len)
      in \<lparr>lc_source = lc_source w, lc_offset = lc_offset w + s, lc_length = e - s\<rparr>)"

text \<open>
  Modelled from the spec: \<^verbatim>\<open>stream()\<close> of section 4.2 delegates to
  \<^verbatim>\<open>source.read(absoluteStart, absoluteEnd)\<close>; each call starts a fresh read, in the host
  state in which the stream is consumed. The chunks are given as their concatenation.
\<close>

definition LazyContent_stream :: "LazyContent \<Rightarrow> host \<Rightarrow> error + byte list" where
  "LazyContent_stream w h =
     read (lc_source w) h (Some (lc_offset w)) (Some (lc_offset w + lc_length w))"

text \<open>
  Modelled from the spec: a content given as an array of parts (\<^verbatim>\<open>BlobPart[]\<close>). The spec
  has no sentence of its own for it; a part is a blob-like value, whose bytes are only
  available through its own \<^verbatim>\<open>stream()\<close> (section 4.2). To read the range from \<open>s\<close> to
  \<open>e\<close> of the concatenation, the parts are taken in order: a part that ends at or before
  the start of the range is passed over without being read; any other part is streamed
  in full, which reads the whole window of that part from its source, and the range is
  cut out of its bytes in memory; the reading stops once the end of the range is
  reached.
\<close>

fun parts_read :: "LazyContent list \<Rightarrow> host \<Rightarrow> nat \<Rightarrow> nat \<Rightarrow> error + byte list" where
  "parts_read [] h s e = Inr []"
| "parts_read (w # ws) h s e =
     (if lc_length w \<le> s then
        (if e \<le> lc_length w then Inr []
         else parts_read ws h (s - lc_length w) (e - lc_length w))
      else case LazyContent_stream w h of
             Inl err \<Rightarrow> Inl err
           | Inr bs \<Rightarrow>
               (if e \<le> length bs then Inr (take (e - s) (drop s bs))
                else case parts_read ws h (s - length bs) (e - length bs) of
                       Inl err \<Rightarrow> Inl err
                     | Inr rest \<Rightarrow> Inr (drop s bs @ rest)))"

definition parts_content :: "LazyContent list \<Rightarrow> LazyFileContent" where
  "parts_content ws =
     \<lparr>byteLength = sum_list (map lc_length ws),
      read = (\<lambda>h start end.
        parts_read ws h (case start of None \<Rightarrow> 0 | Some s \<Rightarrow> s)
          (case end of None \<Rightarrow> sum_list (map lc_length ws) | Some e \<Rightarrow> e))\<rparr>"

text \<open>The content argument of the constructors: \<^verbatim>\<open>BlobPart[] | LazyFileContent\<close>.\<close>

datatype FileContent = BlobParts "LazyContent list" | Lazy LazyFileContent

text \<open>
  \<^verbatim>\<open>FilePropertyBag\<close>. A key of an object literal can be absent, or present with the value
  \<^verbatim>\<open>undefined\<close>; the spread \<^verbatim>\<open>{ type: lookup(name), ...props }\<close> of the source tells them
  apart, so \<open>bag_type\<close> is \<open>None\<close> for an absent key and \<open>Some None\<close> for \<^verbatim>\<open>undefined\<close>.
\<close>

record FilePropertyBag =
  bag_type :: "string option option"
  bag_lastModified :: "int option"

text \<open>
  Modelled from the spec: a \<^verbatim>\<open>LazyFile\<close> is a window with a name, a MIME type (empty when
  unset) and a modification time (the time of construction when none is given).
\<close>

record LazyFile =
  file_content :: LazyContent
  file_name :: string
  file_type :: string
  file_lastModified :: int

definition LazyFile_new :: "host \<Rightarrow> FileContent \<Rightarrow> string \<Rightarrow> FilePropertyBag \<Rightarrow> LazyFile" where
  "LazyFile_new h content name props =
     (let src = (case content of Lazy c \<Rightarrow> c | BlobParts ws \<Rightarrow> parts_content ws)
      in \<lparr>file_content = \<lparr>lc_source = src, lc_offset = 0, lc_length = byteLength src\<rparr>,
          file_name = name,
          file_type = (case bag_type props of Some (Some t) \<Rightarrow> t | _ \<Rightarrow> []),
          file_lastModified = (case bag_lastModified props of Some t \<Rightarrow> t | None \<Rightarrow> now h)\<rparr>)"

definition LazyFile_size :: "LazyFile \<Rightarrow> nat" where
  "LazyFile_size f = lc_length (file_content f)"

text \<open>Modelled from the spec: \<^verbatim>\<open>slice\<close> of the base class returns the sliced window.\<close>

definition LazyFile_slice :: "LazyFile \<Rightarrow> int option \<Rightarrow> int option \<Rightarrow> LazyContent" where
  "LazyFile_slice f start end = LazyContent_slice (file_content f) start end"

definition LazyFile_stream :: "LazyFile \<Rightarrow> host \<Rightarrow> error + byte list" where
  "LazyFile_stream f h = LazyContent_stream (file_content f) h"

text \<open>
  Modelled from the spec: \<^verbatim>\<open>bytes()\<close> drains \<^verbatim>\<open>stream()\<close> into one buffer and \<^verbatim>\<open>text()\<close>
  decodes it. A text is represented by the bytes of its UTF-8 encoding, as HOL strings are.
\<close>

definition LazyFile_bytes :: "LazyFile \<Rightarrow> host \<Rightarrow> error + byte list" where
  "LazyFile_bytes f h = LazyFile_stream f h"


section \<open>Directories and files (src/lib/open.ts, the later version of the module)\<close>

text \<open>
  The source file holds two versions of the module, one after the other. The later one,
  which the test suite \<^verbatim>\<open>file-system.spec.ts\<close> exercises, is the one modelled here: \<^verbatim>\<open>open\<close>
  is \<^verbatim>\<open>Directory.open\<close> and \<^verbatim>\<open>openFile\<close> is \<^verbatim>\<open>File.open\<close>. Of the earlier one only
  \<^verbatim>\<open>openFile\<close>, which differs, is given at the end of this section.

  A method that touches the host takes the host state and returns its result, or the
  error it throws, with the host state it leaves (\<open>outcome\<close>); a method that only reads
  returns the result or the error.
\<close>

type_synonym 'a outcome = "(error + 'a) \<times> host"

record OpenOptions =
  autoCreate :: "bool option"

definition isNoEntityError :: "error \<Rightarrow> bool" where
  "isNoEntityError obj = (case obj of ErrnoException code \<Rightarrow> code = ENOENT | Error m \<Rightarrow> False)"

text \<open>\<^verbatim>\<open>options?.autoCreate ?? true\<close>.\<close>

definition autoCreate_or_true :: "OpenOptions option \<Rightarrow> bool" where
  "autoCreate_or_true options =
     (case options of
        None \<Rightarrow> True
      | Some opts \<Rightarrow> (case autoCreate opts of None \<Rightarrow> True | Some b \<Rightarrow> b))"

text \<open>\<^verbatim>\<open>class Directory\<close>: the private field \<^verbatim>\<open>#path\<close>, set once by the constructor.\<close>

record Directory =
  dir_path :: string

definition Directory_new :: "host \<Rightarrow> string \<Rightarrow> Directory" where
  "Directory_new h name = \<lparr>dir_path = path_resolve (cwd h) [name]\<rparr>"

definition Directory_dirname :: "Directory \<Rightarrow> string" where
  "Directory_dirname d = path_dirname (dir_path d)"

definition Directory_name :: "Directory \<Rightarrow> string" where
  "Directory_name d = path_basename (dir_path d)"

definition Directory_dir :: "host \<Rightarrow> Directory \<Rightarrow> Directory" where
  "Directory_dir h d = Directory_new h (Directory_dirname d)"

definition Directory_open :: "host \<Rightarrow> string \<Rightarrow> OpenOptions option \<Rightarrow> Directory outcome" where
  \<open>Directory_open h name options =
     (let check = (\<lambda>stats h'.
            if \<not> Stats_isDirectory stats
            then (Inl (Error (''Path "'' @ name @ ''" is not a directory'')), h')
            else (Inr (Directory_new h' name), h'))
      in case statSync h name of
           Inr stats \<Rightarrow> check stats h
         | Inl error \<Rightarrow>
             if \<not> isNoEntityError error then (Inl error, h)
             else if autoCreate_or_true options then
               (case mkdirSync_recursive h name of
                  Inl e \<Rightarrow> (Inl e, h)
                | Inr h' \<Rightarrow>
                    (case statSync h' name of
                       Inl e \<Rightarrow> (Inl e, h')
                     | Inr stats \<Rightarrow> check stats h'))
             else (Inl (Error (''Directory "'' @ name @ ''" does not exist'')), h))\<close>

text \<open>\<^verbatim>\<open>class File extends LazyFile\<close>: the base object and the private field \<^verbatim>\<open>#path\<close>.\<close>

record File =
  File_super :: LazyFile
  File_path :: string

definition File_new :: "host \<Rightarrow> FileContent \<Rightarrow> string \<Rightarrow> FilePropertyBag \<Rightarrow> File" where
  "File_new h content name props =
     (let resolved = path_resolve (cwd h) [name]
      in \<lparr>File_super =
            LazyFile_new h content (path_basename resolved)
              (props\<lparr>bag_type :=
                 (case bag_type props of None \<Rightarrow> Some (mrmime_lookup h name) | Some t \<Rightarrow> Some t)\<rparr>),
          File_path = resolved\<rparr>)"

definition File_name :: "File \<Rightarrow> string" where
  "File_name f = file_name (File_super f)"

definition File_dirname :: "File \<Rightarrow> string" where
  "File_dirname f = path_dirname (File_path f)"

definition File_dir :: "host \<Rightarrow> File \<Rightarrow> Directory" where
  "File_dir h f = Directory_new h (File_dirname f)"

definition File_stats :: "host \<Rightarrow> File \<Rightarrow> error + Stats" where
  "File_stats h f = statSync h (File_path f)"



definition File_bytes :: "File \<Rightarrow> host \<Rightarrow> error + byte list" where
  "File_bytes f h = LazyFile_bytes (File_super f) h"

definition File_size :: "File \<Rightarrow> nat" where
  "File_size f = LazyFile_size (File_super f)"

definition readFile :: "host \<Rightarrow> string \<Rightarrow> nat option \<Rightarrow> nat option \<Rightarrow> error + byte list" where
  "readFile h filename start end =
     createReadStream h filename start (map_option (\<lambda>e. int e - 1) end)"

definition createFile :: "host \<Rightarrow> string \<Rightarrow> Stats \<Rightarrow> File" where
  "createFile h filename stats =
     (let content = \<lparr>byteLength = st_size stats,
                     read = (\<lambda>h' start end. readFile h' filename start end)\<rparr>
      in File_new h (Lazy content) filename
           \<lparr>bag_type = None, bag_lastModified = Some (st_mtimeMs stats)\<rparr>)"

definition File_open :: "host \<Rightarrow> string \<Rightarrow> OpenOptions option \<Rightarrow> File outcome" where
  \<open>File_open h name options =
     (let check = (\<lambda>stats h'.
            if \<not> Stats_isFile stats
            then (Inl (Error (''Path "'' @ name @ ''" is not a file'')), h')
            else (Inr (createFile h' name stats), h'))
      in case statSync h name of
           Inr stats \<Rightarrow> check stats h
         | Inl error \<Rightarrow>
             if \<not> isNoEntityError error then (Inl error, h)
             else if autoCreate_or_true options then
               (case writeFileSync h name [] of
                  Inl e \<Rightarrow> (Inl e, h)
                | Inr h' \<Rightarrow>
                    (case statSync h' name of
                       Inl e \<Rightarrow> (Inl e, h')
                     | Inr stats \<Rightarrow> check stats h'))
             else (Inl (Error (''File "'' @ name @ ''" does not exist'')), h))\<close>

text \<open>
  \<^verbatim>\<open>File.slice\<close>: the sliced window of the base class becomes the only part of a new
  \<^verbatim>\<open>File\<close> built on \<^verbatim>\<open>this.path\<close>, with \<^verbatim>\<open>{ type: contentType }\<close>.
\<close>

definition File_slice :: "host \<Rightarrow> File \<Rightarrow> int option \<Rightarrow> int option \<Rightarrow> string option \<Rightarrow> File" where
  "File_slice h f start end contentType =
     (let content = [LazyFile_slice (File_super f) start end]
      in File_new h (BlobParts content) (File_path f)
           \<lparr>bag_type = Some contentType, bag_lastModified = None\<rparr>)"

definition deleteFile :: "host \<Rightarrow> string \<Rightarrow> unit outcome" where
  "deleteFile h filename =
     (case unlink h filename of
        Inl error \<Rightarrow> (Inl error, h)
      | Inr h' \<Rightarrow> (Inr (), h'))"

definition File_delete :: "host \<Rightarrow> File \<Rightarrow> unit outcome" where
  "File_delete h f = deleteFile h (File_path f)"


definition Directory_entryNames :: "host \<Rightarrow> Directory \<Rightarrow> error + string list" where
  "Directory_entryNames h d = readdirSync h (dir_path d)"

definition Directory_entries :: "host \<Rightarrow> Directory \<Rightarrow> error + Dirent list" where
  "Directory_entries h d = readdirSync_withFileTypes h (dir_path d)"

definition Directory_subdir :: "host \<Rightarrow> Directory \<Rightarrow> string \<Rightarrow> error + Directory option" where
  "Directory_subdir h d name =
     (let dirname = path_join [dir_path d, name]
      in case statSync h dirname of
           Inr stats \<Rightarrow>
             Inr (if Stats_isDirectory stats then Some (Directory_new h dirname) else None)
         | Inl error \<Rightarrow> if isNoEntityError error then Inr None else Inl error)"

definition Directory_file :: "host \<Rightarrow> Directory \<Rightarrow> string \<Rightarrow> error + File option" where
  "Directory_file h d name =
     (let filename = path_join [dir_path d, name]
      in case statSync h filename of
           Inr stats \<Rightarrow>
             Inr (if Stats_isFile stats then Some (createFile h filename stats) else None)
         | Inl error \<Rightarrow> if isNoEntityError error then Inr None else Inl error)"


text \<open>\<^verbatim>\<open>remove(file: string | File)\<close>: a handle stands for its name.\<close>

definition Directory_remove :: "host \<Rightarrow> Directory \<Rightarrow> string + File \<Rightarrow> unit outcome" where
  "Directory_remove h d file =
     deleteFile h (path_join [dir_path d, (case file of Inl name \<Rightarrow> name | Inr f \<Rightarrow> File_name f)])"


text \<open>
  \<^verbatim>\<open>openFile\<close> of the earlier version of the module (lines 40 to 54): it takes no options
  and creates nothing.
\<close>

definition openFile_earlier :: "host \<Rightarrow> string \<Rightarrow> error + File" where
  \<open>openFile_earlier h name =
     (case statSync h name of
        Inl error \<Rightarrow>
          if \<not> isNoEntityError error then Inl error
          else Inl (Error (''File "'' @ name @ ''" does not exist''))
      | Inr stats \<Rightarrow>
          if \<not> Stats_isFile stats then Inl (Error (''Path "'' @ name @ ''" is not a file''))
          else Inr (createFile h name stats))\<close>

subsection \<open>The generators \<^verbatim>\<open>files\<close> and \<^verbatim>\<open>subdirs\<close>\<close>

text \<open>
  The pattern is a \<^verbatim>\<open>RegExp\<close> without state (no \<^verbatim>\<open>g\<close> or \<^verbatim>\<open>y\<close> flag): \<^verbatim>\<open>test\<close> is a
  predicate on names. The default \<^verbatim>\<open>/.*/\<close> accepts every name.
\<close>

type_synonym RegExp = "string \<Rightarrow> bool"

definition default_filter :: RegExp where
  "default_filter = (\<lambda>name. True)"

definition RegExp_test :: "RegExp option \<Rightarrow> string \<Rightarrow> bool" where
  "RegExp_test flt name = (case flt of None \<Rightarrow> default_filter name | Some r \<Rightarrow> r name)"

text \<open>
  A generator is suspended between two calls of \<^verbatim>\<open>next\<close>, and the host may change
  meanwhile. Its state is what is left of the array that \<^verbatim>\<open>this.entries()\<close> returned when
  the loop was entered; every call of \<^verbatim>\<open>next\<close> runs in the host state of that moment.
\<close>

datatype 'a IteratorResult = Yield 'a | Return | Throw error

datatype Generator = NotStarted | Suspended "Dirent list" | Completed

fun files_loop ::
  "host \<Rightarrow> Directory \<Rightarrow> RegExp option \<Rightarrow> Dirent list \<Rightarrow> File IteratorResult \<times> Generator" where
  "files_loop h d flt [] = (Return, Completed)"
| "files_loop h d flt (entry # rest) =
     (if Dirent_isFile entry \<and> RegExp_test flt (dirent_name entry) then
        (let filename = path_join [dir_path d, dirent_name entry]
         in case statSync h filename of
              Inl e \<Rightarrow> (Throw e, Completed)
            | Inr stats \<Rightarrow> (Yield (createFile h filename stats), Suspended rest))
      else files_loop h d flt rest)"

definition Directory_files_next ::
  "host \<Rightarrow> Directory \<Rightarrow> RegExp option \<Rightarrow> Generator \<Rightarrow> File IteratorResult \<times> Generator" where
  "Directory_files_next h d flt g =
     (case g of
        NotStarted \<Rightarrow>
          (case Directory_entries h d of
             Inl e \<Rightarrow> (Throw e, Completed)
           | Inr entries \<Rightarrow> files_loop h d flt entries)
      | Suspended rest \<Rightarrow> files_loop h d flt rest
      | Completed \<Rightarrow> (Return, Completed))"











section \<open>The file browser (src/lib/file.ts and src/lib/file-browser.ts)\<close>

text \<open>\<^verbatim>\<open>FileProps\<close>: \<^verbatim>\<open>FilePropertyBag\<close> with the optional keys of \<^verbatim>\<open>file.ts\<close>.\<close>

record FileProps = FilePropertyBag +
  props_dirname :: "string option"
  props_isDirectory :: "bool option"
  props_isFIFO :: "bool option"
  props_isFile :: "bool option"
  props_isSocket :: "bool option"
  props_isSymbolicLink :: "bool option"

text \<open>
  \<^verbatim>\<open>class File extends LazyFile\<close> of \<^verbatim>\<open>file.ts\<close>, here \<open>BrowserFile\<close> (the module
  \<^verbatim>\<open>open.ts\<close> has a class of the same name): the base object and the private field
  \<^verbatim>\<open>#props\<close>. The optional \<^verbatim>\<open>range\<close> of the constructor is not passed by any caller.
\<close>

record BrowserFile =
  BrowserFile_super :: LazyFile
  BrowserFile_props :: FileProps

definition BrowserFile_new :: "host \<Rightarrow> LazyFileContent \<Rightarrow> string \<Rightarrow> FileProps \<Rightarrow> BrowserFile" where
  "BrowserFile_new h content name props =
     \<lparr>BrowserFile_super = LazyFile_new h (Lazy content) name (FilePropertyBag.truncate props),
      BrowserFile_props = props\<rparr>"

definition BrowserFile_dirname :: "BrowserFile \<Rightarrow> string" where
  "BrowserFile_dirname f = (case props_dirname (BrowserFile_props f) of None \<Rightarrow> [] | Some d \<Rightarrow> d)"

definition BrowserFile_isDirectory :: "BrowserFile \<Rightarrow> bool" where
  "BrowserFile_isDirectory f =
     (case props_isDirectory (BrowserFile_props f) of None \<Rightarrow> False | Some b \<Rightarrow> b)"

definition BrowserFile_isFIFO :: "BrowserFile \<Rightarrow> bool" where
  "BrowserFile_isFIFO f =
     (case props_isFIFO (BrowserFile_props f) of None \<Rightarrow> False | Some b \<Rightarrow> b)"

definition BrowserFile_isFile :: "BrowserFile \<Rightarrow> bool" where
  "BrowserFile_isFile f =
     (case props_isFile (BrowserFile_props f) of None \<Rightarrow> False | Some b \<Rightarrow> b)"

definition BrowserFile_isSocket :: "BrowserFile \<Rightarrow> bool" where
  "BrowserFile_isSocket f =
     (case props_isSocket (BrowserFile_props f) of None \<Rightarrow> False | Some b \<Rightarrow> b)"

definition BrowserFile_isSymbolicLink :: "BrowserFile \<Rightarrow> bool" where
  "BrowserFile_isSymbolicLink f =
     (case props_isSymbolicLink (BrowserFile_props f) of None \<Rightarrow> False | Some b \<Rightarrow> b)"

record FileBrowser =
  fb_directory :: string

definition FileBrowser_new :: "host \<Rightarrow> string \<Rightarrow> FileBrowser outcome" where
  \<open>FileBrowser_new h directory =
     (case statSync h directory of
        Inr stat \<Rightarrow>
          if \<not> Stats_isDirectory stat
          then (Inl (Error (''Path "'' @ directory @ ''" is not a directory'')), h)
          else (Inr \<lparr>fb_directory = directory\<rparr>, h)
      | Inl error \<Rightarrow>
          if \<not> isNoEntityError error then (Inl error, h)
          else (case mkdirSync_recursive h directory of
                  Inl e \<Rightarrow> (Inl e, h)
                | Inr h' \<Rightarrow> (Inr \<lparr>fb_directory = directory\<rparr>, h')))\<close>

definition FileBrowser_get :: "host \<Rightarrow> FileBrowser \<Rightarrow> string \<Rightarrow> error + BrowserFile option" where
  "FileBrowser_get h b filename =
     (let file = path_join [fb_directory b, filename]
      in case statSync h file of
           Inl error \<Rightarrow> if \<not> isNoEntityError error then Inl error else Inr None
         | Inr stat \<Rightarrow>
             (let content = \<lparr>byteLength = st_size stat,
                             read = (\<lambda>h' start end. readFile h' file start end)\<rparr>;
                  props = \<lparr>bag_type = Some (mrmime_lookup h filename),
                           bag_lastModified = Some (st_mtimeMs stat),
                           props_dirname = Some (fb_directory b),
                           props_isDirectory = Some (Stats_isDirectory stat),
                           props_isFIFO = Some (Stats_isFIFO stat),
                           props_isFile = Some (Stats_isFile stat),
                           props_isSocket = Some (Stats_isSocket stat),
                           props_isSymbolicLink = Some (Stats_isSymbolicLink stat)\<rparr>
              in Inr (Some (BrowserFile_new h content filename props))))"

section \<open>An example host\<close>

text \<open>
  The fixtures of the test suite: a directory with three text files and two
  subdirectories, and a named pipe beside it.
\<close>

definition utf8 :: "string \<Rightarrow> byte list" where
  "utf8 s = map (\<lambda>c. of_nat (of_char c)) s"

definition fixtures_host :: host where
  "fixtures_host =
     \<lparr>root = DirNode
        [(''fixtures'', DirNode
           [(''a.txt'', FileNode (utf8 ''This is file a.'') 1),
            (''b.txt'', FileNode (utf8 ''This is file b.'') 2),
            (''c.txt'', FileNode (utf8 ''This is file c.'') 3),
            (''sub'', DirNode [] 4),
            (''sub2'', DirNode [] 5)] 6),
         (''pipe'', SpecialNode NamedPipe 7)] 8,
      cwd = ''/'',
      now = 100,
      mrmime_lookup = (\<lambda>name. None)\<rparr>"

definition a_txt :: File where
  "a_txt = createFile fixtures_host ''/fixtures/a.txt''
             \<lparr>st_size = 15, st_mtimeMs = 1, st_kind = Regular\<rparr>"

definition fixtures_without_b :: host where
  "fixtures_without_b =
     (case unlink fixtures_host ''/fixtures/b.txt'' of Inl e \<Rightarrow> fixtures_host | Inr h' \<Rightarrow> h')"

definition b_txt :: File where
  "b_txt = createFile fixtures_host ''/fixtures/b.txt''
             \<lparr>st_size = 15, st_mtimeMs = 2, st_kind = Regular\<rparr>"



text \<open>
  A byte source that answers \<^verbatim>\<open>read(s, e)\<close> with \<open>e - s\<close> bytes of the value \<open>s\<close>, so that
  the bytes tell which range was asked for, and a file handle on it.
\<close>

definition probe :: LazyFileContent where
  "probe =
     \<lparr>byteLength = 16,
      read = (\<lambda>h start end.
        Inr (replicate ((case end of None \<Rightarrow> 16 | Some e \<Rightarrow> e) - (case start of None \<Rightarrow> 0 | Some s \<Rightarrow> s))
               (of_nat (case start of None \<Rightarrow> 0 | Some s \<Rightarrow> s))))\<rparr>"

definition probe_file :: File where
  "probe_file = File_new fixtures_host (Lazy probe) ''/probe.bin''
                  \<lparr>bag_type = None, bag_lastModified = None\<rparr>"
section \<open>Properties of the path functions\<close>

lemma split_sep_not_Nil [simp]: "split_sep s \<noteq> []"
  by (induction s) (auto split: list.splits)

lemma split_sep_noslash: "CHR ''/'' \<notin> set s \<Longrightarrow> split_sep s = [s]"
  by (induction s) auto

lemma split_sep_append:
  "CHR ''/'' \<notin> set s \<Longrightarrow> split_sep (s @ CHR ''/'' # t) = s # split_sep t"
  by (induction s) auto

lemma split_sep_join:
  "ss \<noteq> [] \<Longrightarrow> \<forall>s\<in>set ss. CHR ''/'' \<notin> set s \<Longrightarrow> split_sep (join_sep ss) = ss"
proof (induction ss rule: join_sep.induct)
  case 1 then show ?case by simp
next
  case (2 s) then show ?case by (simp add: split_sep_noslash)
next
  case (3 s t ss)
  then show ?case by (simp add: split_sep_append)
qed


lemma split_sep_slashfree: "x \<in> set (split_sep s) \<Longrightarrow> CHR ''/'' \<notin> set x"
proof (induction s arbitrary: x)
  case Nil then show ?case by simp
next
  case (Cons c cs)
  obtain h t where ht: "split_sep cs = h # t" by (cases "split_sep cs") auto
  show ?case
  proof (cases "c = CHR ''/''")
    case True with Cons show ?thesis by auto
  next
    case False
    with Cons ht show ?thesis by auto
  qed
qed

lemma normalize_segs_id:
  "\<forall>x\<in>set ss. valid_name x \<Longrightarrow> normalize_segs aa acc ss = acc @ ss"
  by (induction ss arbitrary: acc) (auto simp: valid_name_def)

lemma join_sep_snoc:
  "ss \<noteq> [] \<Longrightarrow> join_sep (ss @ [n]) = join_sep ss @ CHR ''/'' # n"
  by (induction ss rule: join_sep.induct) auto



lemma normalize_segs_skip:
  "s = [] \<or> s = ''.'' \<Longrightarrow> normalize_segs aa acc (s # ss) = normalize_segs aa acc ss"
  by auto

lemma normalize_segs_up:
  "normalize_segs False acc (''..'' # ss) =
     normalize_segs False (if acc \<noteq> [] \<and> last acc \<noteq> ''..'' then butlast acc else acc) ss"
  by simp

lemma normalize_segs_keep:
  "s \<noteq> [] \<Longrightarrow> s \<noteq> ''.'' \<Longrightarrow> s \<noteq> ''..'' \<Longrightarrow>
   normalize_segs aa acc (s # ss) = normalize_segs aa (acc @ [s]) ss"
  by simp

lemma valid_butlast: "\<forall>x\<in>set acc. valid_name x \<Longrightarrow> \<forall>x\<in>set (butlast acc). valid_name x"
  by (auto dest: in_set_butlastD)

lemma normalize_segs_valid:
  "\<forall>x\<in>set acc. valid_name x \<Longrightarrow> \<forall>x\<in>set ss. CHR ''/'' \<notin> set x \<Longrightarrow>
   \<forall>x\<in>set (normalize_segs False acc ss). valid_name x"
proof (induction ss arbitrary: acc)
  case Nil then show ?case by simp
next
  case (Cons s ss)
  have rest: "\<forall>x\<in>set ss. CHR ''/'' \<notin> set x" using Cons.prems(2) by simp
  have sl: "CHR ''/'' \<notin> set s" using Cons.prems(2) by simp
  show ?case
  proof (cases "s = [] \<or> s = ''.''")
    case True
    show ?thesis
      unfolding normalize_segs_skip[OF True] by (rule Cons.IH[OF Cons.prems(1) rest])
  next
    case False
    show ?thesis
    proof (cases "s = ''..''")
      case True
      have "\<forall>x\<in>set (if acc \<noteq> [] \<and> last acc \<noteq> ''..'' then butlast acc else acc). valid_name x"
        using Cons.prems(1) valid_butlast[OF Cons.prems(1)] by simp
      then show ?thesis
        unfolding True normalize_segs_up by (rule Cons.IH[OF _ rest])
    next
      case ndd: False
      have k: "s \<noteq> []" "s \<noteq> ''.''" using False by auto
      have "valid_name s" using k ndd sl by (simp add: valid_name_def)
      then have "\<forall>x\<in>set (acc @ [s]). valid_name x" using Cons.prems(1) by simp
      then show ?thesis
        unfolding normalize_segs_keep[OF k ndd] by (rule Cons.IH[OF _ rest])
    qed
  qed
qed


lemma abs_path_snoc:
  "abs_path (ds @ [n]) = (if ds = [] then ''/'' else abs_path ds @ ''/'') @ n"
  by (simp add: abs_path_def join_sep_snoc)

lemma basename_tail:
  assumes "n \<noteq> []" "CHR ''/'' \<notin> set n"
  shows "path_basename (pre @ CHR ''/'' # n) = n"
proof -
  obtain c cs where r: "rev n = c # cs" using assms(1) by (cases "rev n") auto
  have c: "c \<noteq> CHR ''/''" using assms(2) r by (metis list.set_intros(1) set_rev)
  have cs: "CHR ''/'' \<notin> set cs" using assms(2) r by (metis list.set_intros(2) set_rev)
  have "path_basename (pre @ CHR ''/'' # n) = rev (c # cs)"
    unfolding path_basename_def using c cs by (auto simp add: r takeWhile_tail)
  then show ?thesis using r by (metis rev_rev_ident)
qed

lemma basename_abs_path:
  assumes "valid_name n"
  shows "path_basename (abs_path (ds @ [n])) = n"
proof -
  have n: "n \<noteq> []" "CHR ''/'' \<notin> set n" using assms by (auto simp: valid_name_def)
  show ?thesis
  proof (cases "ds = []")
    case True
    then show ?thesis using basename_tail[OF n, of "[]"] by (simp add: abs_path_def)
  next
    case False
    then show ?thesis using basename_tail[OF n, of "abs_path ds"] by (simp add: abs_path_snoc)
  qed
qed

lemma join_sep_nonempty:
  "ds \<noteq> [] \<Longrightarrow> \<forall>x\<in>set ds. x \<noteq> [] \<Longrightarrow> join_sep ds \<noteq> []"
  by (induction ds rule: join_sep.induct) auto

lemma dirname_tail:
  assumes "n \<noteq> []" "CHR ''/'' \<notin> set n"
  shows "path_dirname (CHR ''/'' # pre @ CHR ''/'' # n) = (if pre = [] then ''//'' else CHR ''/'' # pre)"
proof -
  obtain c cs where r: "rev n = c # cs" using assms(1) by (cases "rev n") auto
  have c: "c \<noteq> CHR ''/''" using assms(2) r by (metis list.set_intros(1) set_rev)
  have cs: "\<forall>x\<in>set cs. x \<noteq> CHR ''/''" using assms(2) r by (metis list.set_intros(2) set_rev)
  have "dropWhile (\<lambda>x. x \<noteq> CHR ''/'') (dropWhile (\<lambda>x. x = CHR ''/'') (rev (pre @ CHR ''/'' # n)))
        = CHR ''/'' # rev pre"
    using c cs by (simp add: r)
  then show ?thesis unfolding path_dirname_def by simp
qed

lemma dirname_single:
  assumes "n \<noteq> []" "CHR ''/'' \<notin> set n"
  shows "path_dirname (CHR ''/'' # n) = ''/''"
proof -
  obtain c cs where r: "rev n = c # cs" using assms(1) by (cases "rev n") auto
  have c: "c \<noteq> CHR ''/''" using assms(2) r by (metis list.set_intros(1) set_rev)
  have cs: "\<forall>x\<in>set cs. x \<noteq> CHR ''/''" using assms(2) r by (metis list.set_intros(2) set_rev)
  have dw: "dropWhile (\<lambda>x. x \<noteq> CHR ''/'') cs = []" using cs by simp
  show ?thesis unfolding path_dirname_def by (simp add: r c dw)
qed

lemma dirname_abs_path:
  assumes "valid_name n" "\<forall>x\<in>set ds. valid_name x"
  shows "path_dirname (abs_path (ds @ [n])) = abs_path ds"
proof -
  have n: "n \<noteq> []" "CHR ''/'' \<notin> set n" using assms by (auto simp: valid_name_def)
  show ?thesis
  proof (cases "ds = []")
    case True
    then show ?thesis using dirname_single[OF n] by (simp add: abs_path_def)
  next
    case False
    have "join_sep ds \<noteq> []"
      using False assms(2) by (intro join_sep_nonempty) (auto simp: valid_name_def)
    then show ?thesis
      using False dirname_tail[OF n, of "join_sep ds"] by (simp add: abs_path_def join_sep_snoc)
  qed
qed


lemma basename_root: "path_basename (abs_path []) = []"
  by (simp add: abs_path_def path_basename_def)

lemma dirname_root: "path_dirname (abs_path []) = abs_path []"
  by (simp add: abs_path_def path_dirname_def)



lemma split_sep_app: "split_sep (p @ CHR ''/'' # t) = split_sep p @ split_sep t"
proof (induction p)
  case Nil then show ?case by simp
next
  case (Cons c cs)
  obtain h r where hr: "split_sep cs = h # r" by (cases "split_sep cs") auto
  show ?case using Cons hr by simp
qed

lemma normalize_segs_app:
  "normalize_segs aa acc (xs @ ys) = normalize_segs aa (normalize_segs aa acc xs) ys"
  by (induction xs arbitrary: acc) auto

lemma split_sep_abs_path:
  assumes "\<forall>x\<in>set segs. valid_name x"
  shows "normalize_segs False acc (split_sep (abs_path segs)) = acc @ segs"
proof (cases "segs = []")
  case True
  then show ?thesis by (simp add: abs_path_def)
next
  case False
  have sf: "\<forall>s\<in>set segs. CHR ''/'' \<notin> set s" using assms by (simp add: valid_name_def)
  have "split_sep (abs_path segs) = [] # segs"
    using split_sep_join[OF False sf] by (simp add: abs_path_def)
  then show ?thesis using normalize_segs_id[OF assms] by simp
qed

lemma host_segs_valid: "\<forall>x\<in>set (host_segs wd p). valid_name x"
  unfolding host_segs_def
  by (rule normalize_segs_valid) (auto dest: split_sep_slashfree)

lemma host_segs_abs_path:
  assumes "\<forall>x\<in>set segs. valid_name x"
  shows "host_segs wd (abs_path segs) = segs"
proof -
  have "isAbsolute (abs_path segs)" by (simp add: isAbsolute_def abs_path_def)
  then show ?thesis using split_sep_abs_path[OF assms, of "[]"] by (simp add: host_segs_def)
qed

lemma path_resolve_host_segs:
  assumes "isAbsolute wd"
  shows "path_resolve wd [p] = abs_path (host_segs wd p)"
proof -
  have cne: "wd \<noteq> []" using assms by (auto simp: isAbsolute_def)
  have tail: "\<And>q. normalize_segs False [] (split_sep (q @ ''/'')) = normalize_segs False [] (split_sep q)"
    by (simp add: split_sep_app normalize_segs_app)
  show ?thesis
  proof (cases "p = []")
    case True
    have "\<not> isAbsolute p" using True by (simp add: isAbsolute_def)
    then show ?thesis
      using True assms cne tail[of wd]
      by (simp add: path_resolve_def host_segs_def normalizeString_def abs_path_def)
  next
    case False
    show ?thesis
    proof (cases "isAbsolute p")
      case True
      then show ?thesis using False tail[of p]
        by (simp add: path_resolve_def host_segs_def normalizeString_def abs_path_def)
    next
      case na: False
      have "normalize_segs False [] (split_sep (wd @ CHR ''/'' # p @ ''/''))
            = normalize_segs False [] (split_sep (wd @ CHR ''/'' # p))"
        using tail[of "wd @ CHR ''/'' # p"] by simp
      then show ?thesis using False na assms cne
        by (simp add: path_resolve_def host_segs_def normalizeString_def abs_path_def)
    qed
  qed
qed

lemma path_resolve_abs_path:
  assumes "\<forall>x\<in>set segs. valid_name x"
  shows "path_resolve wd [abs_path segs] = abs_path segs"
proof -
  have a: "isAbsolute (abs_path segs)" "abs_path segs \<noteq> []" by (simp_all add: isAbsolute_def abs_path_def)
  have "normalize_segs False [] (split_sep (abs_path segs @ ''/'')) = segs"
    using split_sep_abs_path[OF assms, of "[]"] by (simp add: split_sep_app normalize_segs_app)
  then show ?thesis using a
    by (simp add: path_resolve_def normalizeString_def abs_path_def)
qed

lemma join_sep_last:
  "ss \<noteq> [] \<Longrightarrow> last ss \<noteq> [] \<Longrightarrow> join_sep ss \<noteq> [] \<and> last (join_sep ss) = last (last ss)"
  by (induction ss rule: join_sep.induct) auto

lemma path_join_abs_path:
  assumes ds: "\<forall>x\<in>set ds. valid_name x" and n: "valid_name n"
  shows "path_join [abs_path ds, n] = abs_path (ds @ [n])"
proof -
  have nn: "n \<noteq> []" "CHR ''/'' \<notin> set n" using n by (auto simp: valid_name_def)
  have ln: "last n \<noteq> CHR ''/''" using nn by (metis last_in_set)
  let ?j = "abs_path ds @ CHR ''/'' # n"
  have segs: "normalize_segs False [] (split_sep ?j) = ds @ [n]"
    using split_sep_abs_path[OF ds, of "[]"] nn n
    by (simp add: split_sep_app normalize_segs_app split_sep_noslash valid_name_def)
  have jne: "join_sep (ds @ [n]) \<noteq> []"
    using join_sep_last[of "ds @ [n]"] nn by simp
  have parts: "filter (\<lambda>a. a \<noteq> []) [abs_path ds, n] = [abs_path ds, n]"
    using nn by (simp add: abs_path_def)
  have abs: "isAbsolute ?j" "?j \<noteq> []" "last ?j = last n"
    using nn by (simp_all add: isAbsolute_def abs_path_def)
  show ?thesis
    unfolding path_join_def parts
    using abs ln segs jne
    by (simp add: path_normalize_def normalizeString_def Let_def abs_path_def)
qed

lemma path_join_root_empty: "path_join [abs_path [], []] = abs_path []"
  by (simp add: path_join_def path_normalize_def normalizeString_def abs_path_def isAbsolute_def)

section \<open>Properties of the host\<close>

lemma node_stats_kind [simp]: "st_kind (node_stats n) = node_kind n"
  by (cases n) auto

lemma node_kind_Folder: "node_kind n = Folder \<longleftrightarrow> (\<exists>cs t. n = DirNode cs t)"
  by (cases n rule: node_kind.cases) auto

lemma node_kind_Regular: "node_kind n = Regular \<longleftrightarrow> (\<exists>bs t. n = FileNode bs t)"
  by (cases n rule: node_kind.cases) auto





lemma unlink_node_fails:
  "lookup_node r ss = Inl e \<Longrightarrow> unlink_node r ss = Inl e"
proof (induction r ss rule: unlink_node.induct)
qed (auto split: option.splits)

lemma unlink_node_removes:
  "lookup_node r ss = Inr c \<Longrightarrow> ss \<noteq> [] \<Longrightarrow> node_kind c \<noteq> Folder \<Longrightarrow>
   \<exists>r'. unlink_node r ss = Inr r' \<and> lookup_node r' ss = Inl (ErrnoException ENOENT)"
proof (induction r ss rule: unlink_node.induct)
  case (2 cs m s)
  then show ?case by (cases c) (auto simp: delete_conv' split: option.splits)
next
  case (3 cs m s v va)
  then show ?case by (auto simp: update_conv' split: option.splits)
qed auto

lemma unlink_node_directory:
  "lookup_node r ss = Inr (DirNode cs t) \<Longrightarrow> unlink_node r ss = Inl (ErrnoException EISDIR)"
proof (induction r ss rule: unlink_node.induct)
qed (auto split: option.splits)

section \<open>Properties of the lazy content\<close>

lemma parts_read_single:
  "parts_read [w] h s e =
     (if lc_length w \<le> s then Inr []
      else map_sum id (\<lambda>bs. take (e - s) (drop s bs)) (LazyContent_stream w h))"
  by (simp split: sum.splits)

lemma read_parts_content_single:
  "read (parts_content [w]) h (Some s) (Some e) =
     (if lc_length w \<le> s then Inr []
      else map_sum id (\<lambda>bs. take (e - s) (drop s bs)) (LazyContent_stream w h))"
  unfolding parts_content_def by (simp add: parts_read_single del: parts_read.simps)

lemma LazyContent_slice_in_range:
  assumes "0 \<le> b" "b \<le> c" "c \<le> int (lc_length w)"
  shows "LazyContent_slice w (Some b) (Some c)
         = \<lparr>lc_source = lc_source w, lc_offset = lc_offset w + nat b, lc_length = nat c - nat b\<rparr>"
proof -
  have "nat b \<le> lc_length w" "nat c \<le> lc_length w" using assms by auto
  then show ?thesis using assms
    by (simp add: LazyContent_slice_def clamp_index_def Let_def min_absorb1)
qed

lemma File_slice_content:
  "file_content (File_super (File_slice h' f s e t))
   = \<lparr>lc_source = parts_content [LazyContent_slice (file_content (File_super f)) s e],
      lc_offset = 0,
      lc_length = lc_length (LazyContent_slice (file_content (File_super f)) s e)\<rparr>"
  by (simp add: File_slice_def File_new_def LazyFile_new_def LazyFile_slice_def Let_def
        parts_content_def)

lemma File_bytes_read:
  "File_bytes f h =
     read (lc_source (file_content (File_super f))) h
       (Some (lc_offset (file_content (File_super f))))
       (Some (lc_offset (file_content (File_super f)) + lc_length (file_content (File_super f))))"
  by (simp add: File_bytes_def LazyFile_bytes_def LazyFile_stream_def LazyContent_stream_def)

text \<open>
  A range of a content made of one window: nothing is read when the range starts at the
  end of the window, otherwise the whole window is read and cut.
\<close>

lemma read_parts_window:
  "read (parts_content [\<lparr>lc_source = src, lc_offset = off, lc_length = len\<rparr>]) h (Some s) (Some e)
   = (if len \<le> s then Inr []
      else map_sum id (\<lambda>bs. take (e - s) (drop s bs))
             (read src h (Some off) (Some (off + len))))"
  by (simp add: read_parts_content_single LazyContent_stream_def)

lemma File_slice_bytes:
  assumes "0 \<le> b" "b \<le> c" "c \<le> int (File_size f)"
  shows "File_bytes (File_slice h' f (Some b) (Some c) t) h
         = (if b = c then Inr []
            else map_sum id (take (nat c - nat b))
                   (read (lc_source (file_content (File_super f))) h
                      (Some (lc_offset (file_content (File_super f)) + nat b))
                      (Some (lc_offset (file_content (File_super f)) + nat c))))"
proof -
  let ?w = "file_content (File_super f)"
  have c: "c \<le> int (lc_length ?w)" using assms(3) by (simp add: File_size_def LazyFile_size_def)
  have w1: "LazyContent_slice ?w (Some b) (Some c)
            = \<lparr>lc_source = lc_source ?w, lc_offset = lc_offset ?w + nat b, lc_length = nat c - nat b\<rparr>"
    by (rule LazyContent_slice_in_range[OF assms(1,2) c])
  have le: "nat b \<le> nat c" using assms by simp
  have eq: "nat c - nat b \<le> 0 \<longleftrightarrow> b = c" using assms by auto
  have off: "lc_offset ?w + nat b + (nat c - nat b) = lc_offset ?w + nat c" using le by simp
  have "File_bytes (File_slice h' f (Some b) (Some c) t) h
        = read (parts_content [\<lparr>lc_source = lc_source ?w, lc_offset = lc_offset ?w + nat b,
                                 lc_length = nat c - nat b\<rparr>]) h (Some 0) (Some (nat c - nat b))"
    unfolding File_bytes_read File_slice_content w1 by simp
  also have "\<dots> = (if b = c then Inr []
                   else map_sum id (take (nat c - nat b))
                          (read (lc_source ?w) h (Some (lc_offset ?w + nat b))
                             (Some (lc_offset ?w + nat c))))"
    unfolding read_parts_window eq off by simp
  finally show ?thesis .
qed

lemma map_sum_take_take:
  "map_sum id (take n) (map_sum id (\<lambda>bs. take n (drop k bs)) r)
   = map_sum id (\<lambda>bs. take n (drop k bs)) r"
  by (cases r) simp_all

section \<open>Properties of the handles\<close>

lemma join_dirname_basename:
  assumes "\<forall>x\<in>set segs. valid_name x"
  shows "path_join [path_dirname (abs_path segs), path_basename (abs_path segs)] = abs_path segs"
proof (cases segs rule: rev_cases)
  case Nil
  then show ?thesis by (simp add: dirname_root basename_root path_join_root_empty)
next
  case (snoc ds n)
  have v: "valid_name n" "\<forall>x\<in>set ds. valid_name x" using assms snoc by simp_all
  show ?thesis
    unfolding snoc dirname_abs_path[OF v] basename_abs_path[OF v(1)]
    by (rule path_join_abs_path[OF v(2) v(1)])
qed

lemma File_new_path: "File_path (File_new h content name props) = path_resolve (cwd h) [name]"
  by (simp add: File_new_def Let_def)

lemma File_new_name:
  "File_name (File_new h content name props) = path_basename (path_resolve (cwd h) [name])"
  by (simp add: File_new_def File_name_def LazyFile_new_def Let_def)

lemma createFile_path: "File_path (createFile h0 p st0) = path_resolve (cwd h0) [p]"
  by (simp add: createFile_def File_new_path Let_def)

lemma createFile_bytes:
  "File_bytes (createFile h0 p st0) h = readFile h p (Some 0) (Some (st_size st0))"
  by (simp add: File_bytes_read createFile_def File_new_def LazyFile_new_def Let_def)

lemma host_lookup_resolved:
  assumes "isAbsolute (cwd h)"
  shows "host_lookup h (path_resolve (cwd h) [p]) = lookup_node (root h) (host_segs (cwd h) p)"
proof -
  have r: "path_resolve (cwd h) [p] = abs_path (host_segs (cwd h) p)"
    by (rule path_resolve_host_segs[OF assms])
  have "abs_path (host_segs (cwd h) p) \<noteq> []" by (simp add: abs_path_def)
  then show ?thesis
    unfolding r host_lookup_def
    by (simp add: host_segs_abs_path[OF host_segs_valid])
qed

lemma files_loop_skip:
  assumes "\<forall>x\<in>set pre. \<not> (Dirent_isFile x \<and> RegExp_test flt (dirent_name x))"
  shows "files_loop h d flt (pre @ es) = files_loop h d flt es"
  using assms by (induction pre) auto





lemma host_lookup_update_root [simp]:
  "host_lookup (h\<lparr>root := r\<rparr>) p = (if p = [] then Inl (ErrnoException ENOENT)
     else lookup_node r (host_segs (cwd h) p))"
  by (simp add: host_lookup_def)




lemma statSync_update_root [simp]:
  "statSync (h\<lparr>root := r\<rparr>) p =
     (if p = [] then Inl (ErrnoException ENOENT)
      else case lookup_node r (host_segs (cwd h) p) of Inl e \<Rightarrow> Inl e | Inr n \<Rightarrow> Inr (node_stats n))"
  by (simp add: statSync_def)

lemma abs_path_not_Nil [simp]: "abs_path segs \<noteq> []"
  by (simp add: abs_path_def)















section \<open>Slicing a slice\<close>

text \<open>A source made by \<^verbatim>\<open>createFile\<close> keeps the contract of a byte source in every host state.\<close>

lemma readFile_contract:
  "(\<exists>err. \<forall>s e. readFile h p s e = Inl err)
   \<or> (\<exists>bs. \<forall>s e. s \<le> e \<longrightarrow> readFile h p (Some s) (Some e) = Inr (take (e - s) (drop s bs)))"
proof (cases "host_lookup h p")
  case (Inl err)
  then show ?thesis by (simp add: readFile_def createReadStream_def)
next
  case (Inr n)
  show ?thesis
  proof (cases n)
    case (FileNode bs t)
    have "\<forall>s e. s \<le> e \<longrightarrow> readFile h p (Some s) (Some e) = Inr (take (e - s) (drop s bs))"
      using Inr FileNode
      by (simp add: readFile_def createReadStream_def byte_range_def nat_diff_distrib')
    then show ?thesis by blast
  next
    case (DirNode cs t)
    then show ?thesis using Inr by (simp add: readFile_def createReadStream_def)
  next
    case (SpecialNode k t)
    have "\<forall>s e. s \<le> e \<longrightarrow> readFile h p (Some s) (Some e) = Inr (take (e - s) (drop s []))"
      using Inr SpecialNode by (simp add: readFile_def createReadStream_def)
    then show ?thesis by blast
  qed
qed

lemma take_drop_window:
  assumes "a \<le> b" "b \<le> c" "c \<le> (d::nat)"
  shows "take (c - b) (drop (b - a) (take (d - a) (drop (off + a) bs)))
         = take (c - b) (drop (off + b) bs)"
proof -
  have "drop (b - a) (take (d - a) (drop (off + a) bs))
        = take (d - b) (drop (off + b) bs)"
    using assms by (simp add: drop_take add.commute add.left_commute)
  then show ?thesis using assms by (simp add: min_absorb1)
qed

text \<open>
  Claim C1. For a file handle \<open>f\<close> whose content is a window of a byte source, and indices
  \<open>0 \<le> a \<le> b \<le> c \<le> d \<le> f.size\<close>. When \<open>b < c\<close>, the bytes of
  \<^verbatim>\<open>f.slice(a, d).slice(b - a, c - a)\<close> are obtained by one \<^verbatim>\<open>read\<close> of the whole window of
  the first slice, with the bounds \<open>offset + a\<close> and \<open>offset + d\<close>, from which the range from
  \<open>b - a\<close> to \<open>c - a\<close> is cut in memory; the bytes of \<^verbatim>\<open>f.slice(b, c)\<close> are obtained by one
  \<^verbatim>\<open>read\<close> with the bounds \<open>offset + b\<close> and \<open>offset + c\<close>. When \<open>b = c\<close> both are empty and
  nothing is read. The two are equal, in the host state in which they are read, when the
  source keeps its contract there: it answers every range with that range of one byte
  sequence, or it fails with the same error for every range.
\<close>

theorem File_slice_compose:
  fixes f :: File and bs :: "byte list"
  defines "src \<equiv> lc_source (file_content (File_super f))"
    and "off \<equiv> lc_offset (file_content (File_super f))"
  assumes "0 \<le> a" "a \<le> b" "b \<le> c" "c \<le> d" "d \<le> int (File_size f)"
  shows "File_bytes (File_slice h2 (File_slice h1 f (Some a) (Some d) t1) (Some (b - a)) (Some (c - a)) t2) h
           = (if b = c then Inr []
              else map_sum id (\<lambda>bs. take (nat c - nat b) (drop (nat b - nat a) bs))
                     (read src h (Some (off + nat a)) (Some (off + nat d))))
       \<and> File_bytes (File_slice h3 f (Some b) (Some c) t3) h
           = (if b = c then Inr []
              else map_sum id (take (nat c - nat b))
                     (read src h (Some (off + nat b)) (Some (off + nat c))))
       \<and> ((\<forall>s e. s \<le> e \<longrightarrow> read src h (Some s) (Some e) = Inr (take (e - s) (drop s bs)))
            \<longrightarrow> File_bytes (File_slice h2 (File_slice h1 f (Some a) (Some d) t1) (Some (b - a)) (Some (c - a)) t2) h
                = File_bytes (File_slice h3 f (Some b) (Some c) t3) h)
       \<and> ((\<forall>s e. read src h (Some s) (Some e) = Inl err)
            \<longrightarrow> File_bytes (File_slice h2 (File_slice h1 f (Some a) (Some d) t1) (Some (b - a)) (Some (c - a)) t2) h
                = File_bytes (File_slice h3 f (Some b) (Some c) t3) h)"
proof -
  let ?w = "file_content (File_super f)"
  let ?g = "File_slice h1 f (Some a) (Some d) t1"
  let ?nested = "File_bytes (File_slice h2 ?g (Some (b - a)) (Some (c - a)) t2) h"
  let ?direct = "File_bytes (File_slice h3 f (Some b) (Some c) t3) h"
  have d: "d \<le> int (lc_length ?w)" using assms by (simp add: File_size_def LazyFile_size_def)
  have ad: "a \<le> d" using assms by simp
  have w1: "LazyContent_slice ?w (Some a) (Some d)
            = \<lparr>lc_source = src, lc_offset = off + nat a, lc_length = nat d - nat a\<rparr>"
    unfolding src_def off_def by (rule LazyContent_slice_in_range[OF assms(3) ad d])
  have g: "file_content (File_super ?g)
           = \<lparr>lc_source = parts_content [\<lparr>lc_source = src, lc_offset = off + nat a,
                                           lc_length = nat d - nat a\<rparr>],
              lc_offset = 0, lc_length = nat d - nat a\<rparr>"
    unfolding File_slice_content w1 by simp
  have sz: "c - a \<le> int (File_size ?g)"
    using assms by (simp add: File_size_def LazyFile_size_def g)
  have ba: "0 \<le> b - a" "b - a \<le> c - a" using assms by simp_all
  have n1: "nat (c - a) - (nat b - nat a) = nat c - nat b" using assms by auto
  have n2: "nat (b - a) = nat b - nat a" using assms by auto
  have n3: "off + nat a + (nat d - nat a) = off + nat d" using assms by auto
  have "?nested
        = (if b - a = c - a then Inr []
           else map_sum id (take (nat (c - a) - nat (b - a)))
                  (read (lc_source (file_content (File_super ?g))) h
                     (Some (lc_offset (file_content (File_super ?g)) + nat (b - a)))
                     (Some (lc_offset (file_content (File_super ?g)) + nat (c - a)))))"
    by (rule File_slice_bytes[OF ba sz])
  also have "\<dots> = (if b = c then Inr []
           else map_sum id (take (nat c - nat b))
                  (read (parts_content [\<lparr>lc_source = src, lc_offset = off + nat a,
                                          lc_length = nat d - nat a\<rparr>]) h
                     (Some (nat b - nat a)) (Some (nat (c - a)))))"
    unfolding g n2 n1 by simp
  also have "\<dots> = (if b = c then Inr []
           else map_sum id (\<lambda>bs. take (nat c - nat b) (drop (nat b - nat a) bs))
                  (read src h (Some (off + nat a)) (Some (off + nat d))))"
  proof (cases "b = c")
    case True
    then show ?thesis by simp
  next
    case False
    then have lt: "\<not> nat d - nat a \<le> nat b - nat a" using assms by auto
    show ?thesis
      unfolding read_parts_window n3 n1 using lt False
      by (simp add: map_sum_take_take)
  qed
  finally have 1: "?nested = (if b = c then Inr []
           else map_sum id (\<lambda>bs. take (nat c - nat b) (drop (nat b - nat a) bs))
                  (read src h (Some (off + nat a)) (Some (off + nat d))))" .
  have 2: "?direct = (if b = c then Inr []
              else map_sum id (take (nat c - nat b))
                     (read src h (Some (off + nat b)) (Some (off + nat c))))"
  proof -
    have "0 \<le> b" "c \<le> int (File_size f)" using assms by simp_all
    then show ?thesis unfolding src_def off_def using assms(5) by (intro File_slice_bytes)
  qed
  have 3: "?nested = ?direct"
    if r: "\<forall>s e. s \<le> e \<longrightarrow> read src h (Some s) (Some e) = Inr (take (e - s) (drop s bs))"
  proof -
    have le: "nat a \<le> nat b" "nat b \<le> nat c" "nat c \<le> nat d" using assms by simp_all
    have ra: "read src h (Some (off + nat a)) (Some (off + nat d))
              = Inr (take (nat d - nat a) (drop (off + nat a) bs))"
      using r le by simp
    have rb: "read src h (Some (off + nat b)) (Some (off + nat c))
              = Inr (take (nat c - nat b) (drop (off + nat b) bs))"
      using r le by simp
    have td: "take (nat c - nat b) (drop (nat b - nat a) (take (nat d - nat a) (drop (off + nat a) bs)))
              = take (nat c - nat b) (drop (off + nat b) bs)"
      by (rule take_drop_window[OF le])
    have "?nested = (if b = c then Inr []
            else Inr (take (nat c - nat b) (drop (nat b - nat a)
                   (take (nat d - nat a) (drop (off + nat a) bs)))))"
      unfolding 1 ra by simp
    also have "\<dots> = (if b = c then Inr [] else Inr (take (nat c - nat b) (drop (off + nat b) bs)))"
      unfolding td ..
    also have "\<dots> = ?direct"
      unfolding 2 rb by simp
    finally show ?thesis .
  qed
  have 4: "?nested = ?direct" if r: "\<forall>s e. read src h (Some s) (Some e) = Inl err"
    unfolding 1 2 using r by simp
  show ?thesis using 1 2 3 4 by blast
qed

theorem File_slice_compose_witness:
  "File_bytes (File_slice fixtures_host (File_slice fixtures_host a_txt (Some 2) (Some 10) None)
       (Some (5 - 2)) (Some (7 - 2)) None) fixtures_host
     = Inr (utf8 ''is'')
   \<and> File_bytes (File_slice fixtures_host a_txt (Some 5) (Some 7) None) fixtures_host
     = Inr (utf8 ''is'')
   \<and> File_bytes (File_slice fixtures_host (File_slice fixtures_host b_txt (Some 2) (Some 10) None)
       (Some (5 - 2)) (Some (7 - 2)) None) fixtures_without_b
     = File_bytes (File_slice fixtures_host b_txt (Some 5) (Some 7) None) fixtures_without_b
   \<and> File_bytes (File_slice fixtures_host b_txt (Some 5) (Some 7) None) fixtures_without_b
     = Inl (ErrnoException ENOENT)"
proof -
  have n: "(0::int) \<le> 2" "(2::int) \<le> 5" "(5::int) \<le> 7" "(7::int) \<le> 10" by simp_all
  have sa: "(10::int) \<le> int (File_size a_txt)"
    by (simp add: a_txt_def createFile_def File_new_def LazyFile_new_def File_size_def
          LazyFile_size_def Let_def)
  have sb: "(10::int) \<le> int (File_size b_txt)"
    by (simp add: b_txt_def createFile_def File_new_def LazyFile_new_def File_size_def
          LazyFile_size_def Let_def)
  note A = File_slice_compose [where f = a_txt and h = fixtures_host and ?h1.0 = fixtures_host
            and ?h2.0 = fixtures_host and ?h3.0 = fixtures_host and ?t1.0 = None and ?t2.0 = None
            and ?t3.0 = None and bs = "utf8 ''This is file a.''" and err = "ErrnoException ENOENT",
            OF n sa]
  note B = File_slice_compose [where f = b_txt and h = fixtures_without_b and ?h1.0 = fixtures_host
            and ?h2.0 = fixtures_host and ?h3.0 = fixtures_host and ?t1.0 = None and ?t2.0 = None
            and ?t3.0 = None and bs = "[]" and err = "ErrnoException ENOENT",
            OF n sb]
  have srca: "read (lc_source (file_content (File_super a_txt)))
              = (\<lambda>h s e. readFile h ''/fixtures/a.txt'' s e)"
    by (simp add: a_txt_def createFile_def File_new_def LazyFile_new_def Let_def)
  have srcb: "read (lc_source (file_content (File_super b_txt)))
              = (\<lambda>h s e. readFile h ''/fixtures/b.txt'' s e)"
    by (simp add: b_txt_def createFile_def File_new_def LazyFile_new_def Let_def)
  have la: "host_lookup fixtures_host ''/fixtures/a.txt'' = Inr (FileNode (utf8 ''This is file a.'') 1)"
    by code_simp
  have lb: "host_lookup fixtures_without_b ''/fixtures/b.txt'' = Inl (ErrnoException ENOENT)"
    by code_simp
  have ca: "\<forall>s e. s \<le> e \<longrightarrow>
              read (lc_source (file_content (File_super a_txt))) fixtures_host (Some s) (Some e)
              = Inr (take (e - s) (drop s (utf8 ''This is file a.'')))"
    unfolding srca using la
    by (simp add: readFile_def createReadStream_def byte_range_def nat_diff_distrib')
  have cb: "\<forall>s e. read (lc_source (file_content (File_super b_txt))) fixtures_without_b (Some s) (Some e)
              = Inl (ErrnoException ENOENT)"
    unfolding srcb using lb by (simp add: readFile_def createReadStream_def)
  have 1: "File_bytes (File_slice fixtures_host a_txt (Some 5) (Some 7) None) fixtures_host
           = Inr (utf8 ''is'')"
    by (rule trans[OF A[THEN conjunct2, THEN conjunct1]]) code_simp
  have 2: "File_bytes (File_slice fixtures_host (File_slice fixtures_host a_txt (Some 2) (Some 10) None)
               (Some (5 - 2)) (Some (7 - 2)) None) fixtures_host
           = File_bytes (File_slice fixtures_host a_txt (Some 5) (Some 7) None) fixtures_host"
    by (rule mp[OF A[THEN conjunct2, THEN conjunct2, THEN conjunct1] ca])
  have 3: "File_bytes (File_slice fixtures_host b_txt (Some 5) (Some 7) None) fixtures_without_b
           = Inl (ErrnoException ENOENT)"
    by (rule trans[OF B[THEN conjunct2, THEN conjunct1]]) code_simp
  have 4: "File_bytes (File_slice fixtures_host (File_slice fixtures_host b_txt (Some 2) (Some 10) None)
               (Some (5 - 2)) (Some (7 - 2)) None) fixtures_without_b
           = File_bytes (File_slice fixtures_host b_txt (Some 5) (Some 7) None) fixtures_without_b"
    by (rule mp[OF B[THEN conjunct2, THEN conjunct2, THEN conjunct2] cb])
  show ?thesis using 1 2 3 4 by simp
qed

text \<open>
  The claim as stated fails for the second half, and with it for sources that answer a
  range by what was asked: on the probe source \<^verbatim>\<open>f.slice(2, 10).slice(3, 5)\<close> has the bytes
  of a read that started at 2, which lie in the window from 2 to 10 of the first slice,
  and \<^verbatim>\<open>f.slice(5, 7)\<close> has the bytes of a read that started at 5.
\<close>

theorem File_slice_probe_counterexample:
  "File_bytes (File_slice fixtures_host (File_slice fixtures_host probe_file (Some 2) (Some 10) None)
       (Some (5 - 2)) (Some (7 - 2)) None) fixtures_host
     = Inr [2, 2]
   \<and> File_bytes (File_slice fixtures_host probe_file (Some 5) (Some 7) None) fixtures_host
     = Inr [5, 5]
   \<and> (2::int) \<le> 5 \<and> (5::int) \<le> 7 \<and> (7::int) \<le> 10 \<and> 10 \<le> int (File_size probe_file)"
  by code_simp

section \<open>Opening a file that does not exist\<close>




text \<open>
  The earlier \<^verbatim>\<open>openFile\<close> fails on every path whose stat fails with \<^verbatim>\<open>ENOENT\<close>, as the
  later one does with \<^verbatim>\<open>{ autoCreate: false }\<close>.
\<close>

lemma openFile_earlier_missing:
  \<open>statSync h p = Inl (ErrnoException ENOENT) \<Longrightarrow>
   openFile_earlier h p = Inl (Error (''File "'' @ p @ ''" does not exist''))\<close>
  by (simp add: openFile_earlier_def isNoEntityError_def)

section \<open>Looking up one child\<close>

text \<open>
  Claim C3. \<^verbatim>\<open>d.file(n)\<close> and \<^verbatim>\<open>d.subdir(n)\<close> stat \<^verbatim>\<open>join(d.path, n)\<close>. They return
  \<^verbatim>\<open>null\<close>, and do not throw, when the stat fails with \<^verbatim>\<open>ENOENT\<close> and when it succeeds
  on an entry that is not of the kind asked for; they return a handle when the kind is
  right; every other failure of the stat is thrown as it is.
\<close>

theorem Directory_file_subdir_sentinel:
  "(statSync h (path_join [dir_path d, n]) = Inl (ErrnoException ENOENT) \<longrightarrow>
      Directory_file h d n = Inr None \<and> Directory_subdir h d n = Inr None)
   \<and> (statSync h (path_join [dir_path d, n]) = Inr st \<and> \<not> Stats_isFile st \<longrightarrow>
      Directory_file h d n = Inr None)
   \<and> (statSync h (path_join [dir_path d, n]) = Inr st \<and> \<not> Stats_isDirectory st \<longrightarrow>
      Directory_subdir h d n = Inr None)
   \<and> (statSync h (path_join [dir_path d, n]) = Inr st \<and> Stats_isFile st \<longrightarrow>
      Directory_file h d n = Inr (Some (createFile h (path_join [dir_path d, n]) st)))
   \<and> (statSync h (path_join [dir_path d, n]) = Inr st \<and> Stats_isDirectory st \<longrightarrow>
      Directory_subdir h d n = Inr (Some (Directory_new h (path_join [dir_path d, n]))))
   \<and> (statSync h (path_join [dir_path d, n]) = Inl e \<and> e \<noteq> ErrnoException ENOENT \<longrightarrow>
      Directory_file h d n = Inl e \<and> Directory_subdir h d n = Inl e)"
  by (auto simp: Directory_file_def Directory_subdir_def Let_def isNoEntityError_def
        split: error.splits)

theorem Directory_file_subdir_sentinel_witness:
  "Directory_file fixtures_host (Directory_new fixtures_host ''/fixtures'') ''missing.txt'' = Inr None
   \<and> Directory_subdir fixtures_host (Directory_new fixtures_host ''/fixtures'') ''missing'' = Inr None
   \<and> Directory_file fixtures_host (Directory_new fixtures_host ''/fixtures'') ''sub'' = Inr None
   \<and> Directory_subdir fixtures_host (Directory_new fixtures_host ''/fixtures'') ''a.txt'' = Inr None
   \<and> Directory_file fixtures_host (Directory_new fixtures_host ''/fixtures'') ''a.txt''
       = Inr (Some (createFile fixtures_host ''/fixtures/a.txt''
                      \<lparr>st_size = 15, st_mtimeMs = 1, st_kind = Regular\<rparr>))
   \<and> Directory_subdir fixtures_host (Directory_new fixtures_host ''/fixtures'') ''sub''
       = Inr (Some (Directory_new fixtures_host ''/fixtures/sub''))
   \<and> Directory_file fixtures_host (Directory_new fixtures_host ''/fixtures'') ''a.txt/x''
       = Inl (ErrnoException ENOTDIR)
   \<and> Directory_subdir fixtures_host (Directory_new fixtures_host ''/fixtures'') ''a.txt/x''
       = Inl (ErrnoException ENOTDIR)"
proof -
  let ?d = "Directory_new fixtures_host ''/fixtures''"
  have j1: "path_join [dir_path ?d, ''missing.txt''] = ''/fixtures/missing.txt''"
   and j2: "path_join [dir_path ?d, ''missing''] = ''/fixtures/missing''"
   and j3: "path_join [dir_path ?d, ''sub''] = ''/fixtures/sub''"
   and j4: "path_join [dir_path ?d, ''a.txt''] = ''/fixtures/a.txt''"
   and j5: "path_join [dir_path ?d, ''a.txt/x''] = ''/fixtures/a.txt/x''"
    by code_simp+
  have s1: "statSync fixtures_host ''/fixtures/missing.txt'' = Inl (ErrnoException ENOENT)"
   and s2: "statSync fixtures_host ''/fixtures/missing'' = Inl (ErrnoException ENOENT)"
   and s3: "statSync fixtures_host ''/fixtures/sub'' = Inr \<lparr>st_size = 0, st_mtimeMs = 4, st_kind = Folder\<rparr>"
   and s4: "statSync fixtures_host ''/fixtures/a.txt'' = Inr \<lparr>st_size = 15, st_mtimeMs = 1, st_kind = Regular\<rparr>"
   and s5: "statSync fixtures_host ''/fixtures/a.txt/x'' = Inl (ErrnoException ENOTDIR)"
    by code_simp+
  show ?thesis
    using Directory_file_subdir_sentinel [of fixtures_host ?d "''missing.txt''"]
          Directory_file_subdir_sentinel [of fixtures_host ?d "''missing''"]
          Directory_file_subdir_sentinel [of fixtures_host ?d "''sub''"
            "\<lparr>st_size = 0, st_mtimeMs = 4, st_kind = Folder\<rparr>"]
          Directory_file_subdir_sentinel [of fixtures_host ?d "''a.txt''"
            "\<lparr>st_size = 15, st_mtimeMs = 1, st_kind = Regular\<rparr>"]
          Directory_file_subdir_sentinel [of fixtures_host ?d "''a.txt/x''" _ "ErrnoException ENOTDIR"]
    unfolding j1 j2 j3 j4 j5 s1 s2 s3 s4 s5
    by (simp add: Stats_isFile_def Stats_isDirectory_def)
qed

section \<open>Opening an entry of the wrong kind\<close>

text \<open>
  Claim C6. When the entry at \<open>p\<close> exists, \<^verbatim>\<open>open(p)\<close> fails with the error
  \<^verbatim>\<open>Path "p" is not a directory\<close> (the WrongKindError of the spec) unless it is a
  directory, and \<^verbatim>\<open>openFile(p)\<close> fails with \<^verbatim>\<open>Path "p" is not a file\<close> unless it is a
  regular file; the host is left unchanged and no handle is returned. Whenever either
  returns a handle, also after creating the entry, the entry at \<open>p\<close> is of the kind asked
  for in the host state that results.
\<close>

theorem open_wrong_kind:
  \<open>(statSync h p = Inr st \<and> \<not> Stats_isDirectory st \<longrightarrow>
      Directory_open h p opts = (Inl (Error (''Path "'' @ p @ ''" is not a directory'')), h))
   \<and> (statSync h p = Inr st \<and> \<not> Stats_isFile st \<longrightarrow>
      File_open h p opts = (Inl (Error (''Path "'' @ p @ ''" is not a file'')), h))
   \<and> (Directory_open h p opts = (Inr d, h') \<longrightarrow>
      (\<exists>st'. statSync h' p = Inr st' \<and> Stats_isDirectory st'))
   \<and> (File_open h p opts = (Inr f, h') \<longrightarrow>
      (\<exists>st'. statSync h' p = Inr st' \<and> Stats_isFile st'))\<close>
  by (auto simp: Directory_open_def File_open_def Let_def split: sum.splits if_splits)

theorem open_wrong_kind_witness:
  \<open>Directory_open fixtures_host ''/fixtures/a.txt'' None
     = (Inl (Error ''Path "/fixtures/a.txt" is not a directory''), fixtures_host)
   \<and> File_open fixtures_host ''/fixtures/sub'' None
     = (Inl (Error ''Path "/fixtures/sub" is not a file''), fixtures_host)
   \<and> File_open fixtures_host ''/pipe'' None
     = (Inl (Error ''Path "/pipe" is not a file''), fixtures_host)
   \<and> (\<exists>st'. statSync fixtures_host ''/fixtures/sub'' = Inr st' \<and> Stats_isDirectory st')
   \<and> (\<exists>st'. statSync fixtures_host ''/fixtures/a.txt'' = Inr st' \<and> Stats_isFile st')\<close>
proof -
  have s3: "statSync fixtures_host ''/fixtures/sub'' = Inr \<lparr>st_size = 0, st_mtimeMs = 4, st_kind = Folder\<rparr>"
   and s4: "statSync fixtures_host ''/fixtures/a.txt'' = Inr \<lparr>st_size = 15, st_mtimeMs = 1, st_kind = Regular\<rparr>"
   and s5: "statSync fixtures_host ''/pipe'' = Inr \<lparr>st_size = 0, st_mtimeMs = 7, st_kind = FIFO\<rparr>"
    by code_simp+
  have o1: "Directory_open fixtures_host ''/fixtures/sub'' None
            = (Inr (Directory_new fixtures_host ''/fixtures/sub''), fixtures_host)"
    by (simp add: Directory_open_def s3 Stats_isDirectory_def)
  have o2: "File_open fixtures_host ''/fixtures/a.txt'' None
            = (Inr (createFile fixtures_host ''/fixtures/a.txt''
                 \<lparr>st_size = 15, st_mtimeMs = 1, st_kind = Regular\<rparr>), fixtures_host)"
    by (simp add: File_open_def s4 Stats_isFile_def)
  show ?thesis
    using open_wrong_kind [of fixtures_host "''/fixtures/a.txt''"
            "\<lparr>st_size = 15, st_mtimeMs = 1, st_kind = Regular\<rparr>" None]
          open_wrong_kind [of fixtures_host "''/fixtures/sub''"
            "\<lparr>st_size = 0, st_mtimeMs = 4, st_kind = Folder\<rparr>" None
            "Directory_new fixtures_host ''/fixtures/sub''" fixtures_host]
          open_wrong_kind [of fixtures_host "''/pipe''"
            "\<lparr>st_size = 0, st_mtimeMs = 7, st_kind = FIFO\<rparr>" None]
          open_wrong_kind [of fixtures_host "''/fixtures/a.txt''" _ None _ fixtures_host
            "createFile fixtures_host ''/fixtures/a.txt''
                 \<lparr>st_size = 15, st_mtimeMs = 1, st_kind = Regular\<rparr>"]
          s3 s4 s5 o1 o2
    by (simp add: Stats_isFile_def Stats_isDirectory_def)
qed

section \<open>Listing the files and the subdirectories\<close>



section \<open>The path of a handle\<close>

text \<open>
  Claim C5. The constructors of \<^verbatim>\<open>Directory\<close> and \<^verbatim>\<open>File\<close> store \<^verbatim>\<open>path.resolve(name)\<close>
  once; with an absolute working directory, \<^verbatim>\<open>join(dirname, name)\<close> of the handle is its
  path. \<open>dir_path\<close>, \<open>Directory_dirname\<close>, \<open>Directory_name\<close>, \<open>File_path\<close>,
  \<open>File_dirname\<close> and \<open>File_name\<close> are functions of the handle alone: they take no host
  state, so nothing that happens to the entry on disk changes them. A slice of a file
  resolves the stored path again, in whatever working directory, and gets the same path
  and name.
\<close>

theorem handle_path_invariant:
  assumes "isAbsolute (cwd h)"
  shows "dir_path (Directory_new h name) = path_resolve (cwd h) [name]
       \<and> path_join [Directory_dirname (Directory_new h name), Directory_name (Directory_new h name)]
           = dir_path (Directory_new h name)
       \<and> File_path (File_new h content name props) = path_resolve (cwd h) [name]
       \<and> path_join [File_dirname (File_new h content name props),
                     File_name (File_new h content name props)]
           = File_path (File_new h content name props)
       \<and> File_path (File_slice h' (File_new h content name props) start end t)
           = File_path (File_new h content name props)
       \<and> File_name (File_slice h' (File_new h content name props) start end t)
           = File_name (File_new h content name props)"
proof -
  let ?segs = "host_segs (cwd h) name"
  have r: "path_resolve (cwd h) [name] = abs_path ?segs"
    by (rule path_resolve_host_segs[OF assms])
  have v: "\<forall>x\<in>set ?segs. valid_name x" by (rule host_segs_valid)
  have j: "path_join [path_dirname (abs_path ?segs), path_basename (abs_path ?segs)] = abs_path ?segs"
    by (rule join_dirname_basename[OF v])
  have idem: "path_resolve (cwd h') [abs_path ?segs] = abs_path ?segs"
    by (rule path_resolve_abs_path[OF v])
  show ?thesis
    using j idem
    by (simp add: Directory_new_def Directory_dirname_def Directory_name_def File_new_path
          File_new_name File_dirname_def File_slice_def r)
qed

theorem handle_path_invariant_witness:
  "dir_path (Directory_new fixtures_host ''fixtures/../fixtures//sub/'') = ''/fixtures/sub''
   \<and> Directory_dirname (Directory_new fixtures_host ''fixtures/../fixtures//sub/'') = ''/fixtures''
   \<and> Directory_name (Directory_new fixtures_host ''fixtures/../fixtures//sub/'') = ''sub''
   \<and> path_join [File_dirname a_txt, File_name a_txt] = File_path a_txt
   \<and> File_path (File_slice fixtures_host a_txt (Some 0) (Some 5) None) = File_path a_txt"
proof -
  have a: "isAbsolute (cwd fixtures_host)" by code_simp
  have p: "path_resolve (cwd fixtures_host) [''fixtures/../fixtures//sub/''] = ''/fixtures/sub''"
    by code_simp
  have dn: "path_dirname ''/fixtures/sub'' = ''/fixtures''" "path_basename ''/fixtures/sub'' = ''sub''"
    by code_simp+
  show ?thesis
    using handle_path_invariant [OF a, where name = "''fixtures/../fixtures//sub/''"]
          handle_path_invariant [OF a, where name = "''/fixtures/a.txt''"
            and content = "Lazy \<lparr>byteLength = 15, read = (\<lambda>h' start end. readFile h' ''/fixtures/a.txt'' start end)\<rparr>"
            and props = "\<lparr>bag_type = None, bag_lastModified = Some 1\<rparr>"
            and h' = fixtures_host and start = "Some 0" and ?end = "Some 5" and t = None]
    by (simp add: p dn Directory_dirname_def Directory_name_def a_txt_def createFile_def)
qed

section \<open>Deleting a file\<close>

text \<open>
  Claim C7. \<^verbatim>\<open>f.delete()\<close> unlinks \<^verbatim>\<open>f.path\<close>. When the stat of the path fails, in
  particular with \<^verbatim>\<open>ENOENT\<close> when the file is absent, \<^verbatim>\<open>delete\<close> fails with that same
  error and the host is unchanged; on a directory it fails with the \<^verbatim>\<open>EISDIR\<close> of the
  host; on any other entry (the root of the host being a directory) it succeeds and the
  path is absent afterwards. \<open>File_delete\<close> returns the outcome and the new host state
  only: the handle is a value that it does not change, and reading through the same
  handle afterwards still addresses the same file, which is now reported missing.
\<close>

theorem File_delete_removes:
  "(statSync h (File_path f) = Inl e \<longrightarrow> File_delete h f = (Inl e, h))
   \<and> (statSync h (File_path f) = Inr st \<and> Stats_isDirectory st \<longrightarrow>
        File_delete h f = (Inl (ErrnoException EISDIR), h))
   \<and> (statSync h (File_path f) = Inr st \<and> \<not> Stats_isDirectory st \<and> node_kind (root h) = Folder \<longrightarrow>
        (\<exists>h'. File_delete h f = (Inr (), h')
           \<and> statSync h' (File_path f) = Inl (ErrnoException ENOENT)
           \<and> (\<forall>h0 p st0. f = createFile h0 p st0 \<and> cwd h0 = cwd h \<and> isAbsolute (cwd h) \<longrightarrow>
                 File_bytes f h' = Inl (ErrnoException ENOENT))))"
proof (intro conjI impI)
  assume "statSync h (File_path f) = Inl e"
  then show "File_delete h f = (Inl e, h)"
    by (auto simp: File_delete_def deleteFile_def unlink_def statSync_def host_lookup_def
          unlink_node_fails split: sum.splits if_splits)
next
  assume "statSync h (File_path f) = Inr st \<and> Stats_isDirectory st"
  then obtain n where n: "host_lookup h (File_path f) = Inr n" "node_kind n = Folder"
    by (cases "host_lookup h (File_path f)")
       (auto simp: statSync_def Stats_isDirectory_def)
  then obtain cs t where "n = DirNode cs t" by (auto simp: node_kind_Folder)
  then show "File_delete h f = (Inl (ErrnoException EISDIR), h)"
    using n
    by (auto simp: File_delete_def deleteFile_def unlink_def host_lookup_def
          unlink_node_directory split: if_splits)
next
  assume a: "statSync h (File_path f) = Inr st \<and> \<not> Stats_isDirectory st \<and> node_kind (root h) = Folder"
  let ?p = "File_path f"
  let ?ss = "host_segs (cwd h) ?p"
  from a obtain n where n: "host_lookup h ?p = Inr n" "node_kind n \<noteq> Folder"
    by (cases "host_lookup h ?p")
       (auto simp: statSync_def Stats_isDirectory_def)
  have pne: "?p \<noteq> []" using n by (auto simp: host_lookup_def split: if_splits)
  have lk: "lookup_node (root h) ?ss = Inr n" using n pne by (simp add: host_lookup_def)
  have sne: "?ss \<noteq> []" using lk n(2) a by auto
  obtain r' where r': "unlink_node (root h) ?ss = Inr r'"
      "lookup_node r' ?ss = Inl (ErrnoException ENOENT)"
    using unlink_node_removes[OF lk sne n(2)] by blast
  let ?h' = "h\<lparr>root := r'\<rparr>"
  have d: "File_delete h f = (Inr (), ?h')"
    using r' pne by (simp add: File_delete_def deleteFile_def unlink_def)
  have s: "statSync ?h' ?p = Inl (ErrnoException ENOENT)"
    using r' pne by (simp add: statSync_def host_lookup_def)
  have stale: "File_bytes f ?h' = Inl (ErrnoException ENOENT)"
    if f: "f = createFile h0 p st0" and c: "cwd h0 = cwd h" and ab: "isAbsolute (cwd h)"
    for h0 p st0
  proof -
    have fp: "?p = path_resolve (cwd h) [p]" using f c by (simp add: createFile_path)
    have "host_lookup ?h' ?p = lookup_node r' (host_segs (cwd h) p)"
      using host_lookup_resolved[of ?h' p] ab fp by simp
    moreover have "host_lookup ?h' ?p = Inl (ErrnoException ENOENT)"
      using r' pne by (simp add: host_lookup_def)
    ultimately have "host_lookup ?h' p = Inl (ErrnoException ENOENT)"
      by (simp add: host_lookup_def)
    then show ?thesis
      unfolding f createFile_bytes by (simp add: readFile_def createReadStream_def)
  qed
  show "\<exists>h'. File_delete h f = (Inr (), h')
           \<and> statSync h' (File_path f) = Inl (ErrnoException ENOENT)
           \<and> (\<forall>h0 p st0. f = createFile h0 p st0 \<and> cwd h0 = cwd h \<and> isAbsolute (cwd h) \<longrightarrow>
                 File_bytes f h' = Inl (ErrnoException ENOENT))"
    using d s stale by blast
qed


theorem File_delete_removes_witness:
  "File_delete fixtures_host b_txt = (Inr (), fixtures_without_b)
   \<and> statSync fixtures_without_b (File_path b_txt) = Inl (ErrnoException ENOENT)
   \<and> File_bytes b_txt fixtures_without_b = Inl (ErrnoException ENOENT)
   \<and> File_delete fixtures_without_b b_txt = (Inl (ErrnoException ENOENT), fixtures_without_b)
   \<and> File_delete fixtures_host (File_new fixtures_host (BlobParts []) ''/fixtures/sub'' \<lparr>bag_type = None, bag_lastModified = None\<rparr>)
       = (Inl (ErrnoException EISDIR), fixtures_host)"
proof -
  have p: "File_path b_txt = ''/fixtures/b.txt''"
    unfolding b_txt_def createFile_path by code_simp
  have s: "statSync fixtures_host ''/fixtures/b.txt'' = Inr \<lparr>st_size = 15, st_mtimeMs = 2, st_kind = Regular\<rparr>"
    by code_simp
  have k: "node_kind (root fixtures_host) = Folder" by code_simp
  have a: "isAbsolute (cwd fixtures_host)" by code_simp
  have u: "\<exists>h'. unlink fixtures_host ''/fixtures/b.txt'' = Inr h'"
    by (simp add: unlink_def fixtures_host_def host_segs_def isAbsolute_def)
  have d: "File_delete fixtures_host b_txt = (Inr (), fixtures_without_b)"
    using u by (auto simp: File_delete_def deleteFile_def p fixtures_without_b_def)
  have s2: "statSync fixtures_without_b ''/fixtures/b.txt'' = Inl (ErrnoException ENOENT)"
    by code_simp
  let ?g = "File_new fixtures_host (BlobParts []) ''/fixtures/sub'' \<lparr>bag_type = None, bag_lastModified = None\<rparr>"
  have pg: "File_path ?g = ''/fixtures/sub''" unfolding File_new_path by code_simp
  have s3: "statSync fixtures_host ''/fixtures/sub'' = Inr \<lparr>st_size = 0, st_mtimeMs = 4, st_kind = Folder\<rparr>"
    by code_simp
  show ?thesis
    using File_delete_removes [of fixtures_host b_txt _ "\<lparr>st_size = 15, st_mtimeMs = 2, st_kind = Regular\<rparr>"]
          File_delete_removes [of fixtures_without_b b_txt "ErrnoException ENOENT"]
          File_delete_removes [of fixtures_host ?g _ "\<lparr>st_size = 0, st_mtimeMs = 4, st_kind = Folder\<rparr>"]
          s s2 s3 k a d
    unfolding p pg
    by (auto simp: Stats_isDirectory_def b_txt_def)
qed

section \<open>Saving a file whose directory is missing\<close>



section \<open>A file that vanishes while \<^verbatim>\<open>files\<close> is iterated\<close>

text \<open>
  Claim C9. When the generator of \<^verbatim>\<open>d.files(pattern)\<close> is resumed, it skips the listed
  entries that are not regular files with a matching name and stats the first one that
  is, in the host state of that moment. When this stat fails, for instance with
  \<^verbatim>\<open>ENOENT\<close> because the entry was removed after the listing, \<^verbatim>\<open>next\<close> throws that error
  and the generator is finished: the entry is not skipped and nothing is yielded for it.
  When the stat succeeds the handle built from it is yielded.
\<close>

theorem files_next_stat_race:
  assumes "\<forall>x\<in>set pre. \<not> (Dirent_isFile x \<and> RegExp_test flt (dirent_name x))"
      and "Dirent_isFile e" and "RegExp_test flt (dirent_name e)"
  shows "(statSync h (path_join [dir_path d, dirent_name e]) = Inl err \<longrightarrow>
            Directory_files_next h d flt (Suspended (pre @ e # rest)) = (Throw err, Completed)
          \<and> Directory_files_next h d flt Completed = (Return, Completed))
       \<and> (statSync h (path_join [dir_path d, dirent_name e]) = Inr st \<longrightarrow>
            Directory_files_next h d flt (Suspended (pre @ e # rest))
              = (Yield (createFile h (path_join [dir_path d, dirent_name e]) st), Suspended rest))
       \<and> (Directory_entries h d = Inr (pre @ e # rest) \<longrightarrow>
            Directory_files_next h d flt NotStarted
              = Directory_files_next h d flt (Suspended (pre @ e # rest)))"
  using assms(2,3)
  by (auto simp: Directory_files_next_def files_loop_skip[OF assms(1)] Let_def)

theorem files_next_stat_race_witness:
  "snd (Directory_files_next fixtures_host (Directory_new fixtures_host ''/fixtures'') None NotStarted)
     = Suspended [\<lparr>dirent_name = ''b.txt'', dirent_kind = Regular\<rparr>,
                  \<lparr>dirent_name = ''c.txt'', dirent_kind = Regular\<rparr>,
                  \<lparr>dirent_name = ''sub'', dirent_kind = Folder\<rparr>,
                  \<lparr>dirent_name = ''sub2'', dirent_kind = Folder\<rparr>]
   \<and> Directory_files_next fixtures_without_b (Directory_new fixtures_host ''/fixtures'') None
        (Suspended [\<lparr>dirent_name = ''b.txt'', dirent_kind = Regular\<rparr>,
                    \<lparr>dirent_name = ''c.txt'', dirent_kind = Regular\<rparr>,
                    \<lparr>dirent_name = ''sub'', dirent_kind = Folder\<rparr>,
                    \<lparr>dirent_name = ''sub2'', dirent_kind = Folder\<rparr>])
       = (Throw (ErrnoException ENOENT), Completed)
   \<and> Directory_files_next fixtures_without_b (Directory_new fixtures_host ''/fixtures'') None Completed
       = (Return, Completed)"
proof -
  let ?d = "Directory_new fixtures_host ''/fixtures''"
  let ?a = "\<lparr>dirent_name = ''a.txt'', dirent_kind = Regular\<rparr>"
  let ?b = "\<lparr>dirent_name = ''b.txt'', dirent_kind = Regular\<rparr>"
  let ?rest = "[\<lparr>dirent_name = ''c.txt'', dirent_kind = Regular\<rparr>,
                \<lparr>dirent_name = ''sub'', dirent_kind = Folder\<rparr>,
                \<lparr>dirent_name = ''sub2'', dirent_kind = Folder\<rparr>]"
  have ents: "Directory_entries fixtures_host ?d = Inr ([] @ ?a # ?b # ?rest)"
    by code_simp
  have ja: "path_join [dir_path ?d, dirent_name ?a] = ''/fixtures/a.txt''"
   and jb: "path_join [dir_path ?d, dirent_name ?b] = ''/fixtures/b.txt''"
    by code_simp+
  have sa: "statSync fixtures_host ''/fixtures/a.txt'' = Inr \<lparr>st_size = 15, st_mtimeMs = 1, st_kind = Regular\<rparr>"
    by code_simp
  have sb: "statSync fixtures_without_b ''/fixtures/b.txt'' = Inl (ErrnoException ENOENT)"
    by code_simp
  have m: "Dirent_isFile ?a" "RegExp_test None (dirent_name ?a)"
          "Dirent_isFile ?b" "RegExp_test None (dirent_name ?b)"
    by (simp_all add: Dirent_isFile_def RegExp_test_def default_filter_def)
  have 1: "Directory_files_next fixtures_host ?d None NotStarted
           = (Yield (createFile fixtures_host ''/fixtures/a.txt''
                \<lparr>st_size = 15, st_mtimeMs = 1, st_kind = Regular\<rparr>), Suspended (?b # ?rest))"
    using files_next_stat_race [of "[]" None ?a fixtures_host ?d _ "?b # ?rest"
            "\<lparr>st_size = 15, st_mtimeMs = 1, st_kind = Regular\<rparr>"] m ents
    unfolding ja sa by simp
  have 2: "Directory_files_next fixtures_without_b ?d None (Suspended ([] @ ?b # ?rest))
           = (Throw (ErrnoException ENOENT), Completed)
         \<and> Directory_files_next fixtures_without_b ?d None Completed = (Return, Completed)"
    using files_next_stat_race [of "[]" None ?b fixtures_without_b ?d "ErrnoException ENOENT" ?rest] m
    unfolding jb sb by simp
  show ?thesis using 1 2 by simp
qed

section \<open>The file browser returns a handle for an entry of any kind\<close>

text \<open>
  Claim C10. \<^verbatim>\<open>FileBrowser.get(n)\<close> stats \<^verbatim>\<open>join(directory, n)\<close>. When the stat
  succeeds it returns a handle, whatever the kind of the entry: the five kind flags of the
  handle are the booleans of that stat, its name is \<open>n\<close> and its size the size of the
  stat. When the stat fails with \<^verbatim>\<open>ENOENT\<close> it returns \<^verbatim>\<open>null\<close>, any other error of the
  stat is thrown as it is, and \<^verbatim>\<open>null\<close> is returned in no other case.
\<close>

theorem FileBrowser_get_any_kind:
  "(statSync h (path_join [fb_directory b, n]) = Inr st \<longrightarrow>
      (\<exists>f. FileBrowser_get h b n = Inr (Some f)
         \<and> BrowserFile_isFile f = Stats_isFile st
         \<and> BrowserFile_isDirectory f = Stats_isDirectory st
         \<and> BrowserFile_isSymbolicLink f = Stats_isSymbolicLink st
         \<and> BrowserFile_isSocket f = Stats_isSocket st
         \<and> BrowserFile_isFIFO f = Stats_isFIFO st
         \<and> file_name (BrowserFile_super f) = n
         \<and> BrowserFile_dirname f = fb_directory b
         \<and> LazyFile_size (BrowserFile_super f) = st_size st))
   \<and> (statSync h (path_join [fb_directory b, n]) = Inl e \<longrightarrow>
        FileBrowser_get h b n = (if e = ErrnoException ENOENT then Inr None else Inl e))
   \<and> (FileBrowser_get h b n = Inr None \<longrightarrow>
        statSync h (path_join [fb_directory b, n]) = Inl (ErrnoException ENOENT))"
  by (auto simp: FileBrowser_get_def Let_def BrowserFile_new_def BrowserFile_isFile_def
        BrowserFile_isDirectory_def BrowserFile_isSymbolicLink_def BrowserFile_isSocket_def
        BrowserFile_isFIFO_def BrowserFile_dirname_def LazyFile_new_def LazyFile_size_def
        isNoEntityError_def FilePropertyBag.truncate_def
        split: sum.splits error.splits)

theorem FileBrowser_get_any_kind_witness:
  "(\<exists>f. FileBrowser_get fixtures_host \<lparr>fb_directory = ''/fixtures''\<rparr> ''sub'' = Inr (Some f)
        \<and> BrowserFile_isDirectory f \<and> \<not> BrowserFile_isFile f)
   \<and> (\<exists>f. FileBrowser_get fixtures_host \<lparr>fb_directory = ''/''\<rparr> ''pipe'' = Inr (Some f)
        \<and> BrowserFile_isFIFO f \<and> \<not> BrowserFile_isFile f)
   \<and> FileBrowser_get fixtures_host \<lparr>fb_directory = ''/fixtures''\<rparr> ''missing'' = Inr None
   \<and> FileBrowser_get fixtures_host \<lparr>fb_directory = ''/fixtures''\<rparr> ''a.txt/x''
       = Inl (ErrnoException ENOTDIR)"
proof -
  have s1: "statSync fixtures_host (path_join [fb_directory \<lparr>fb_directory = ''/fixtures''\<rparr>, ''sub''])
            = Inr \<lparr>st_size = 0, st_mtimeMs = 4, st_kind = Folder\<rparr>"
    by code_simp
  have s2: "statSync fixtures_host (path_join [fb_directory \<lparr>fb_directory = ''/''\<rparr>, ''pipe''])
            = Inr \<lparr>st_size = 0, st_mtimeMs = 7, st_kind = FIFO\<rparr>"
    by code_simp
  have s3: "statSync fixtures_host (path_join [fb_directory \<lparr>fb_directory = ''/fixtures''\<rparr>, ''missing''])
            = Inl (ErrnoException ENOENT)"
    by code_simp
  have s4: "statSync fixtures_host (path_join [fb_directory \<lparr>fb_directory = ''/fixtures''\<rparr>, ''a.txt/x''])
            = Inl (ErrnoException ENOTDIR)"
    by code_simp
  show ?thesis
    using FileBrowser_get_any_kind [of fixtures_host "\<lparr>fb_directory = ''/fixtures''\<rparr>" "''sub''"
            "\<lparr>st_size = 0, st_mtimeMs = 4, st_kind = Folder\<rparr>"] s1
          FileBrowser_get_any_kind [of fixtures_host "\<lparr>fb_directory = ''/''\<rparr>" "''pipe''"
            "\<lparr>st_size = 0, st_mtimeMs = 7, st_kind = FIFO\<rparr>"] s2
          FileBrowser_get_any_kind [of fixtures_host "\<lparr>fb_directory = ''/fixtures''\<rparr>" "''missing''"
            _ "ErrnoException ENOENT"] s3
          FileBrowser_get_any_kind [of fixtures_host "\<lparr>fb_directory = ''/fixtures''\<rparr>" "''a.txt/x''"
            _ "ErrnoException ENOTDIR"] s4
    by (auto simp: Stats_isDirectory_def Stats_isFile_def Stats_isFIFO_def)
qed

end
